theory Spec2Isabelle
  imports Main "HOL-Library.Word"
begin

section \<open>fetch.py: path sanitizer\<close>

text \<open>
  Python's \<^verbatim>\<open>str\<close> is modelled as \<^typ>\<open>string\<close>. The sanitizer works character by
  character, so nothing in it depends on the alphabet: characters with a code of 128 and above
  stand for the non-ASCII ones.

  \<^verbatim>\<open>filename.replace(char, '_')\<close> is only ever called with a one-character \<^verbatim>\<open>char\<close>:
  every occurrence of that character is replaced.
\<close>

definition str_replace :: "char \<Rightarrow> char \<Rightarrow> string \<Rightarrow> string" where
  "str_replace old new s = map (\<lambda>c. if c = old then new else c) s"

text \<open>\<^verbatim>\<open>invalid_chars = ['<', '>', ':', '"', '/', '\\', '|', '?', '*']\<close> (fetch.py, line 32).\<close>

definition invalid_chars :: "char list" where
  "invalid_chars =
     [CHR ''<'', CHR ''>'', CHR '':'', CHR 0x22, CHR ''/'', CHR 0x5C, CHR ''|'', CHR ''?'', CHR ''*'']"

text \<open>
  \<^verbatim>\<open>for char in invalid_chars: filename = filename.replace(char, '_')\<close>: the loop is a
  left-to-right fold over the list, the file name being the accumulator.
\<close>

definition sanitize_filename :: "string \<Rightarrow> string" where
  "sanitize_filename filename = fold (\<lambda>char fn. str_replace char CHR ''_'' fn) invalid_chars filename"

section \<open>Values of the parsed document\<close>

text \<open>
  \<^verbatim>\<open>json.loads\<close> returns Python values: \<^verbatim>\<open>None\<close>, booleans, integers, floats, strings, lists
  and dictionaries. The program is dynamically typed, so a value of the wrong kind raises at
  the place that uses it; the model keeps the values untyped and writes every such raise as a
  branch. A float is its 64 bits (IEEE 754): the program only ever tests one for truth, and
  a float is false exactly when it is plus or minus zero. The items of a dictionary are kept
  in document order; a lookup takes the first item with the key.
\<close>

datatype json =
    JNull
  | JBool bool
  | JInt int
  | JFloat "64 word"
  | JStr string
  | JArr "json list"
  | JObj "(string \<times> json) list"

datatype exc =
    AttributeError
  | TypeError
  | JSONDecodeError
  | UnicodeDecodeError
  | FileNotFoundError
  | FileExistsError
  | NotADirectoryError
  | IsADirectoryError
  | ConnectionError
  | HTTPError nat
  | ChunkedEncodingError

text \<open>\<^verbatim>\<open>d.get(key, dflt)\<close>: only a dictionary has the method.\<close>

definition dict_get :: "json \<Rightarrow> string \<Rightarrow> json \<Rightarrow> exc + json" where
  "dict_get d key dflt =
     (case d of
        JObj items \<Rightarrow> Inr (case map_of items key of Some v \<Rightarrow> v | None \<Rightarrow> dflt)
      | _ \<Rightarrow> Inl AttributeError)"

text \<open>
  \<^verbatim>\<open>for x in v\<close>: a list gives its elements, a string its characters (as one-character
  strings), a dictionary its keys; nothing else can be iterated.
\<close>

definition py_iter :: "json \<Rightarrow> exc + json list" where
  "py_iter v =
     (case v of
        JArr xs \<Rightarrow> Inr xs
      | JStr s \<Rightarrow> Inr (map (\<lambda>c. JStr [c]) s)
      | JObj items \<Rightarrow> Inr (map (\<lambda>kv. JStr (fst kv)) items)
      | _ \<Rightarrow> Inl TypeError)"

text \<open>Truth value of a Python value, as \<^verbatim>\<open>not file_link\<close> tests it.\<close>

fun py_truth :: "json \<Rightarrow> bool" where
  "py_truth JNull = False"
| "py_truth (JBool b) = b"
| "py_truth (JInt i) = (i \<noteq> 0)"
| "py_truth (JFloat x) = (push_bit 1 x \<noteq> 0)"
| "py_truth (JStr s) = (s \<noteq> [])"
| "py_truth (JArr xs) = (xs \<noteq> [])"
| "py_truth (JObj items) = (items \<noteq> [])"

text \<open>\<^verbatim>\<open>s.endswith(u)\<close> on two strings.\<close>

definition str_endswith :: "string \<Rightarrow> string \<Rightarrow> bool" where
  "str_endswith s u = (length u \<le> length s \<and> drop (length s - length u) s = u)"

text \<open>
  \<^verbatim>\<open>sanitize_filename(v)\<close> on a value of the document: the first \<^verbatim>\<open>v.replace\<close> raises
  unless \<^verbatim>\<open>v\<close> is a string.
\<close>

definition sanitize_value :: "json \<Rightarrow> exc + string" where
  "sanitize_value v = (case v of JStr s \<Rightarrow> Inr (sanitize_filename s) | _ \<Rightarrow> Inl AttributeError)"

section \<open>The world outside: file system, network, console\<close>

text \<open>
  POSIX path semantics (\<^verbatim>\<open>os.path\<close> is \<^verbatim>\<open>posixpath\<close>), no symbolic links, no permission
  errors, no full disk. A file system maps a resolved absolute path, the list of its
  components from the root, to a directory or to a file with its bytes. It is meant to be a
  tree: the root and the working directory are directories, and so is the parent of every
  node.
\<close>

type_synonym byte = "8 word"
type_synonym path = "string list"

datatype node = Dir | File "byte list"

datatype event =
    ProcessingCourse string
  | Downloaded string
  | ErrorDownloading string exc
  | Completed
  | ErrorFileNotFound string
  | ErrorReadingFile exc
  | ErrorNoInput
  | PrintHelp
  | ErrorInvalidJSON
  | ErrorOccurred exc

text \<open>
  The state of a run: the file system, the working directory, the addresses requested so far
  (one entry per \<^verbatim>\<open>requests.get\<close>), the lines printed, and the number of half-second pauses
  taken.
\<close>

record state =
  fs :: "path \<rightharpoonup> node"
  cwd :: path
  requests :: "string list"
  out :: "event list"
  slept :: nat

record response =
  status_code :: nat
  content :: "byte list"
  breaks_after :: "nat option"

text \<open>
  What the program calls and the repository does not contain: the remote servers
  (\<open>http_get k url\<close> is what the \<open>k\<close>-th request of the run, to \<open>url\<close>, returns: a transport
  error, or a response with its status, its body, and, when the connection breaks while the
  body is streamed, the number of chunks delivered before it does), the parser of the
  document text (\<open>None\<close> when the text is not well-formed) and the UTF-8 decoder.
\<close>

record world =
  http_get :: "nat \<Rightarrow> string \<Rightarrow> exc + response"
  json_loads :: "string \<Rightarrow> json option"
  utf8_decode :: "byte list \<Rightarrow> string option"

definition emit :: "event \<Rightarrow> state \<Rightarrow> state" where
  "emit e st = st\<lparr>out := out st @ [e]\<rparr>"

definition time_sleep :: "state \<Rightarrow> state" where
  "time_sleep st = st\<lparr>slept := Suc (slept st)\<rparr>"

subsection \<open>Paths\<close>

text \<open>\<^verbatim>\<open>os.path.join(a, b)\<close> of \<^verbatim>\<open>posixpath\<close>, for two arguments.\<close>

definition os_path_join :: "string \<Rightarrow> string \<Rightarrow> string" where
  "os_path_join a b =
     (if b \<noteq> [] \<and> hd b = CHR ''/'' then b
      else if a = [] \<or> last a = CHR ''/'' then a @ b
      else a @ ''/'' @ b)"

text \<open>
  \<^verbatim>\<open>os.path.dirname(p)\<close>: \<^verbatim>\<open>head = p[:p.rfind('/') + 1]\<close>, and the trailing slashes of
  \<^verbatim>\<open>head\<close> are stripped unless it consists of slashes only.
\<close>

definition os_path_dirname :: "string \<Rightarrow> string" where
  "os_path_dirname p =
     (let head = rev (dropWhile (\<lambda>c. c \<noteq> CHR ''/'') (rev p))
      in if head \<noteq> [] \<and> head \<noteq> replicate (length head) CHR ''/''
         then rev (dropWhile (\<lambda>c. c = CHR ''/'') (rev head))
         else head)"

text \<open>The components of a path: the pieces between slashes, empty ones included.\<close>

fun split_path :: "string \<Rightarrow> string list" where
  "split_path [] = [[]]"
| "split_path (c # cs) =
     (if c = CHR ''/'' then [] # split_path cs
      else (case split_path cs of [] \<Rightarrow> [[c]] | w # ws \<Rightarrow> (c # w) # ws))"

text \<open>Where the resolution of a path starts: the root for an absolute path.\<close>

definition start_dir :: "state \<Rightarrow> string \<Rightarrow> path" where
  "start_dir st name = (if name \<noteq> [] \<and> hd name = CHR ''/'' then [] else cwd st)"

text \<open>
  One component of a path, resolved in the directory \<open>cur\<close>: an empty component and
  \<^verbatim>\<open>.\<close> stay, \<^verbatim>\<open>..\<close> goes to the parent (the root is its own parent).
\<close>

definition is_dot :: "string \<Rightarrow> bool" where
  "is_dot c = (c = [] \<or> c = ''.'')"

subsection \<open>Directories\<close>

text \<open>
  \<^verbatim>\<open>os.makedirs(name, exist_ok=True)\<close>: every component that is missing is created as a
  directory, one that is a directory already is entered, and a file in the way raises:
  \<^verbatim>\<open>FileExistsError\<close> when nothing but slashes follows it in the path,
  \<^verbatim>\<open>NotADirectoryError\<close> otherwise. The directories created before the raise stay.
\<close>

fun mkdir_walk :: "(path \<rightharpoonup> node) \<Rightarrow> path \<Rightarrow> string list \<Rightarrow> (exc + unit) \<times> (path \<rightharpoonup> node)" where
  "mkdir_walk f cur [] = (Inr (), f)"
| "mkdir_walk f cur (c # cs) =
     (if is_dot c then mkdir_walk f cur cs
      else if c = ''..'' then mkdir_walk f (butlast cur) cs
      else (case f (cur @ [c]) of
              None \<Rightarrow> mkdir_walk (f(cur @ [c] \<mapsto> Dir)) (cur @ [c]) cs
            | Some Dir \<Rightarrow> mkdir_walk f (cur @ [c]) cs
            | Some (File b) \<Rightarrow>
                (Inl (if cs = replicate (length cs) [] then FileExistsError else NotADirectoryError), f)))"

definition os_makedirs :: "string \<Rightarrow> state \<Rightarrow> (exc + unit) \<times> state" where
  "os_makedirs name st =
     (if name = [] then (Inl FileNotFoundError, st)
      else (case mkdir_walk (fs st) (start_dir st name) (split_path name) of
              (r, f) \<Rightarrow> (r, st\<lparr>fs := f\<rparr>)))"

subsection \<open>Files\<close>

text \<open>
  The directory part of a path that is opened is resolved without creating anything: each
  component has to be a directory that exists.
\<close>

fun walk_dirs :: "(path \<rightharpoonup> node) \<Rightarrow> path \<Rightarrow> string list \<Rightarrow> exc + path" where
  "walk_dirs f cur [] = Inr cur"
| "walk_dirs f cur (c # cs) =
     (if is_dot c then walk_dirs f cur cs
      else if c = ''..'' then walk_dirs f (butlast cur) cs
      else (case f (cur @ [c]) of
              None \<Rightarrow> Inl FileNotFoundError
            | Some Dir \<Rightarrow> walk_dirs f (cur @ [c]) cs
            | Some (File b) \<Rightarrow> Inl NotADirectoryError))"

text \<open>
  The components of a path without the empty ones at its end, and whether there were any
  (the path ends with a slash).
\<close>

definition path_parts :: "string \<Rightarrow> string list \<times> bool" where
  "path_parts name =
     (let comps = split_path name;
          real = rev (dropWhile (\<lambda>c. c = []) (rev comps))
      in (real, real \<noteq> comps))"

text \<open>
  The node a path names when it is opened for writing: the resolved path of the file, or
  the error. A path that ends with a slash, \<^verbatim>\<open>.\<close> or \<^verbatim>\<open>..\<close>, or that names a directory,
  gives \<^verbatim>\<open>IsADirectoryError\<close>, once the directories before its last component are found.
\<close>

definition file_target :: "string \<Rightarrow> state \<Rightarrow> exc + path" where
  "file_target name st =
     (if name = [] then Inl FileNotFoundError
      else (case path_parts name of
        (real, trailing) \<Rightarrow>
          if real = [] then Inl IsADirectoryError
          else (case walk_dirs (fs st) (start_dir st name) (butlast real) of
                  Inl e \<Rightarrow> Inl e
                | Inr d \<Rightarrow>
                    (let c = last real
                     in if trailing \<or> is_dot c \<or> c = ''..'' \<or> fs st (d @ [c]) = Some Dir
                        then Inl IsADirectoryError
                        else Inr (d @ [c])))))"

text \<open>\<^verbatim>\<open>open(name, 'wb')\<close>: the file is created, or emptied when it exists.\<close>

definition open_wb :: "string \<Rightarrow> state \<Rightarrow> (exc + path) \<times> state" where
  "open_wb name st =
     (case file_target name st of
        Inl e \<Rightarrow> (Inl e, st)
      | Inr p \<Rightarrow> (Inr p, st\<lparr>fs := (fs st)(p \<mapsto> File [])\<rparr>))"

text \<open>\<^verbatim>\<open>file.write(chunk)\<close> on an open file: the bytes are appended.\<close>

definition file_write :: "path \<Rightarrow> byte list \<Rightarrow> state \<Rightarrow> state" where
  "file_write p chunk st =
     (case fs st p of
        Some (File old) \<Rightarrow> st\<lparr>fs := (fs st)(p \<mapsto> File (old @ chunk))\<rparr>
      | _ \<Rightarrow> st)"

text \<open>
  Reading a whole file, in binary: \<^verbatim>\<open>open(name, 'rb').read()\<close>. Nothing is created; a
  file named with a slash at the end is not a directory.
\<close>

definition read_bytes :: "string \<Rightarrow> state \<Rightarrow> exc + byte list" where
  "read_bytes name st =
     (if name = [] then Inl FileNotFoundError
      else (case path_parts name of
        (real, trailing) \<Rightarrow>
          if real = [] then Inl IsADirectoryError
          else (case walk_dirs (fs st) (start_dir st name) (butlast real) of
                  Inl e \<Rightarrow> Inl e
                | Inr d \<Rightarrow>
                    (let c = last real
                     in if is_dot c \<or> c = ''..'' then Inl IsADirectoryError
                        else (case fs st (d @ [c]) of
                                None \<Rightarrow> Inl FileNotFoundError
                              | Some Dir \<Rightarrow> Inl IsADirectoryError
                              | Some (File b) \<Rightarrow>
                                  if trailing then Inl NotADirectoryError else Inr b)))))"

subsection \<open>The network\<close>

text \<open>\<^verbatim>\<open>response.raise_for_status()\<close> of the requests library raises for a 4xx or 5xx status.\<close>

definition raise_for_status :: "response \<Rightarrow> exc + unit" where
  "raise_for_status r =
     (if 400 \<le> status_code r \<and> status_code r < 600 then Inl (HTTPError (status_code r)) else Inr ())"

text \<open>The body cut into chunks of at most \<open>n\<close> bytes.\<close>

function chunks_of :: "nat \<Rightarrow> byte list \<Rightarrow> byte list list" where
  "chunks_of n bs = (if n = 0 \<or> bs = [] then [] else take n bs # chunks_of n (drop n bs))"
  by pat_completeness auto
termination
  by (relation "measure (\<lambda>(n, bs). length bs)") auto

declare chunks_of.simps [simp del]

text \<open>
  \<^verbatim>\<open>response.iter_content(chunk_size=n)\<close>: the chunks that arrive, and the error that ends
  the iteration when the connection breaks.
\<close>

definition iter_content :: "response \<Rightarrow> nat \<Rightarrow> byte list list \<times> exc option" where
  "iter_content r n =
     (case breaks_after r of
        None \<Rightarrow> (chunks_of n (content r), None)
      | Some k \<Rightarrow> (take k (chunks_of n (content r)), Some ChunkedEncodingError))"

section \<open>fetch.py: the batch\<close>

text \<open>
  \<^verbatim>\<open>for chunk in response.iter_content(chunk_size=8192): file.write(chunk)\<close>, on the chunks
  that arrive.
\<close>

fun write_chunks :: "path \<Rightarrow> byte list list \<Rightarrow> state \<Rightarrow> state" where
  "write_chunks p [] st = st"
| "write_chunks p (chunk # rest) st = write_chunks p rest (file_write p chunk st)"

text \<open>
  \<^verbatim>\<open>download_file(url, destination_path)\<close> (lines 9 to 27). Everything is inside one
  \<^verbatim>\<open>try\<close> whose handler catches \<^verbatim>\<open>Exception\<close>, prints and returns \<^verbatim>\<open>False\<close>: the function
  returns a boolean whatever happens, and what was done before the raise stays done.
\<close>

definition download_file :: "world \<Rightarrow> string \<Rightarrow> string \<Rightarrow> state \<Rightarrow> bool \<times> state" where
  "download_file w url destination_path st =
     (let st0 = st\<lparr>requests := requests st @ [url]\<rparr> in
      case http_get w (length (requests st)) url of
        Inl e \<Rightarrow> (False, emit (ErrorDownloading url e) st0)
      | Inr response \<Rightarrow>
      (case raise_for_status response of
        Inl e \<Rightarrow> (False, emit (ErrorDownloading url e) st0)
      | Inr _ \<Rightarrow>
      (case os_makedirs (os_path_dirname destination_path) st0 of
        (Inl e, st1) \<Rightarrow> (False, emit (ErrorDownloading url e) st1)
      | (Inr _, st1) \<Rightarrow>
      (case open_wb destination_path st1 of
        (Inl e, st2) \<Rightarrow> (False, emit (ErrorDownloading url e) st2)
      | (Inr file, st2) \<Rightarrow>
      (case iter_content response 8192 of
        (chunks, Some e) \<Rightarrow> (False, emit (ErrorDownloading url e) (write_chunks file chunks st2))
      | (chunks, None) \<Rightarrow> (True, emit (Downloaded destination_path) (write_chunks file chunks st2)))))))"

text \<open>
  The test of line 67,
  \<^verbatim>\<open>not file_link or file_link.endswith(course.get("uuid", ""))\<close>: a false link is skipped
  without looking at the course; otherwise the link has to have the method
  \<^verbatim>\<open>endswith\<close> (of the values of a document only a string has), and the method accepts
  only a string as the suffix.
\<close>

definition skip_material :: "json \<Rightarrow> json \<Rightarrow> exc + bool" where
  "skip_material file_link course =
     (if \<not> py_truth file_link then Inr True
      else (case file_link of
              JStr s \<Rightarrow>
                (case dict_get course ''uuid'' (JStr []) of
                   Inl e \<Rightarrow> Inl e
                 | Inr (JStr u) \<Rightarrow> Inr (str_endswith s u)
                 | Inr _ \<Rightarrow> Inl TypeError)
            | _ \<Rightarrow> Inl AttributeError))"

text \<open>Line 63: \<^verbatim>\<open>file_name = sanitize_filename(material.get("fileName", "unknown_file"))\<close>.\<close>

definition material_file_name :: "json \<Rightarrow> exc + string" where
  "material_file_name material =
     (case dict_get material ''fileName'' (JStr ''unknown_file'') of
        Inl e \<Rightarrow> Inl e
      | Inr v \<Rightarrow> sanitize_value v)"

text \<open>Line 64: \<^verbatim>\<open>file_link = material.get("link", "")\<close>.\<close>

definition material_link :: "json \<Rightarrow> exc + json" where
  "material_link material = dict_get material ''link'' (JStr [])"

text \<open>
  The body of the inner loop (lines 63 to 77), for one material of a course whose directory
  is \<open>course_dir\<close>. \<^verbatim>\<open>continue\<close> is the normal return with the state unchanged. An exception
  that is raised here is not caught in \<^verbatim>\<open>main\<close>.
\<close>

definition process_material :: "world \<Rightarrow> string \<Rightarrow> json \<Rightarrow> json \<Rightarrow> state \<Rightarrow> (exc + unit) \<times> state" where
  "process_material w course_dir course material st =
     (case material_file_name material of
        Inl e \<Rightarrow> (Inl e, st)
      | Inr file_name \<Rightarrow>
      (case material_link material of
        Inl e \<Rightarrow> (Inl e, st)
      | Inr file_link \<Rightarrow>
      (case skip_material file_link course of
        Inl e \<Rightarrow> (Inl e, st)
      | Inr True \<Rightarrow> (Inr (), st)
      | Inr False \<Rightarrow>
      (case file_link of
        JStr url \<Rightarrow>
          (let file_path = os_path_join course_dir file_name;
               (success, st') = download_file w url file_path st
           in (Inr (), time_sleep st'))
      | _ \<Rightarrow> (Inl AttributeError, st)))))"

text \<open>The inner loop: the materials in order, stopping at the first exception.\<close>

fun process_materials :: "world \<Rightarrow> string \<Rightarrow> json \<Rightarrow> json list \<Rightarrow> state \<Rightarrow> (exc + unit) \<times> state" where
  "process_materials w course_dir course [] st = (Inr (), st)"
| "process_materials w course_dir course (material # rest) st =
     (case process_material w course_dir course material st of
        (Inl e, st') \<Rightarrow> (Inl e, st')
      | (Inr _, st') \<Rightarrow> process_materials w course_dir course rest st')"

text \<open>Line 53: \<^verbatim>\<open>course_title = sanitize_filename(course.get("title", "Unknown"))\<close>.\<close>

definition course_title :: "json \<Rightarrow> exc + string" where
  "course_title course =
     (case dict_get course ''title'' (JStr ''Unknown'') of
        Inl e \<Rightarrow> Inl e
      | Inr v \<Rightarrow> sanitize_value v)"

text \<open>Line 62: what \<^verbatim>\<open>for material in course.get("materials", [])\<close> iterates over.\<close>

definition course_materials :: "json \<Rightarrow> exc + json list" where
  "course_materials course =
     (case dict_get course ''materials'' (JArr []) of
        Inl e \<Rightarrow> Inl e
      | Inr v \<Rightarrow> py_iter v)"

text \<open>The body of the outer loop (lines 53 to 77), for one course.\<close>

definition process_course :: "world \<Rightarrow> string \<Rightarrow> json \<Rightarrow> state \<Rightarrow> (exc + unit) \<times> state" where
  "process_course w base_dir course st =
     (case course_title course of
        Inl e \<Rightarrow> (Inl e, st)
      | Inr title \<Rightarrow>
      (let course_dir = os_path_join base_dir title in
       case os_makedirs course_dir st of
         (Inl e, st1) \<Rightarrow> (Inl e, st1)
       | (Inr _, st1) \<Rightarrow>
       (let st2 = emit (ProcessingCourse title) st1 in
        case course_materials course of
          Inl e \<Rightarrow> (Inl e, st2)
        | Inr materials \<Rightarrow> process_materials w course_dir course materials st2)))"

fun process_courses :: "world \<Rightarrow> string \<Rightarrow> json list \<Rightarrow> state \<Rightarrow> (exc + unit) \<times> state" where
  "process_courses w base_dir [] st = (Inr (), st)"
| "process_courses w base_dir (course # rest) st =
     (case process_course w base_dir course st of
        (Inl e, st') \<Rightarrow> (Inl e, st')
      | (Inr _, st') \<Rightarrow> process_courses w base_dir rest st')"

text \<open>Line 52: what \<^verbatim>\<open>for course in data.get("data", [])\<close> iterates over.\<close>

definition catalog_courses :: "json \<Rightarrow> exc + json list" where
  "catalog_courses data =
     (case dict_get data ''data'' (JArr []) of
        Inl e \<Rightarrow> Inl e
      | Inr v \<Rightarrow> py_iter v)"

text \<open>
  \<^verbatim>\<open>main(json_data, base_dir)\<close> (lines 37 to 79): the base directory is created before the
  text is parsed.
\<close>

definition main :: "world \<Rightarrow> string \<Rightarrow> string \<Rightarrow> state \<Rightarrow> (exc + unit) \<times> state" where
  "main w json_data base_dir st =
     (case os_makedirs base_dir st of
        (Inl e, st1) \<Rightarrow> (Inl e, st1)
      | (Inr _, st1) \<Rightarrow>
      (case json_loads w json_data of
        None \<Rightarrow> (Inl JSONDecodeError, st1)
      | Some data \<Rightarrow>
      (case catalog_courses data of
        Inl e \<Rightarrow> (Inl e, st1)
      | Inr courses \<Rightarrow>
      (case process_courses w base_dir courses st1 of
        (Inl e, st2) \<Rightarrow> (Inl e, st2)
      | (Inr _, st2) \<Rightarrow> (Inr (), emit Completed st2)))))"

section \<open>fetch.py: the command line\<close>

text \<open>
  The parsed arguments: the optional positional \<^verbatim>\<open>json_file\<close>, \<^verbatim>\<open>--output-dir\<close> (default
  \<^verbatim>\<open>downloads\<close>) and \<^verbatim>\<open>--json-string\<close>.
\<close>

record args =
  json_file :: "string option"
  output_dir :: string
  json_string :: "string option"

text \<open>
  \<^verbatim>\<open>if args.json_string\<close>, \<^verbatim>\<open>elif args.json_file\<close>: an argument that is absent or empty is
  false.
\<close>

definition given :: "string option \<Rightarrow> string option" where
  "given a = (case a of None \<Rightarrow> None | Some s \<Rightarrow> if s = [] then None else Some s)"

text \<open>
  \<^verbatim>\<open>open(name, 'r', encoding='utf-8').read()\<close>: the bytes of the file, decoded.
\<close>

definition read_text :: "world \<Rightarrow> string \<Rightarrow> state \<Rightarrow> exc + string" where
  "read_text w name st =
     (case read_bytes name st of
        Inl e \<Rightarrow> Inl e
      | Inr bs \<Rightarrow> (case utf8_decode w bs of None \<Rightarrow> Inl UnicodeDecodeError | Some s \<Rightarrow> Inr s))"

text \<open>
  Lines 90 to 108: the text comes from \<^verbatim>\<open>--json-string\<close> if given, else from the file;
  \<^verbatim>\<open>Inl\<close> is \<^verbatim>\<open>sys.exit(1)\<close> after the messages printed.
\<close>

definition get_json_data :: "world \<Rightarrow> args \<Rightarrow> state \<Rightarrow> (event list) + string" where
  "get_json_data w a st =
     (case given (json_string a) of
        Some s \<Rightarrow> Inr s
      | None \<Rightarrow>
      (case given (json_file a) of
        Some name \<Rightarrow>
          (case read_text w name st of
             Inl FileNotFoundError \<Rightarrow> Inl [ErrorFileNotFound name]
           | Inl e \<Rightarrow> Inl [ErrorReadingFile e]
           | Inr s \<Rightarrow> Inr s)
      | None \<Rightarrow> Inl [ErrorNoInput, PrintHelp]))"

text \<open>
  The script (lines 81 to 122): the exit status and the final state. The text is parsed once
  to validate it, before \<^verbatim>\<open>main\<close> is called; any exception of \<^verbatim>\<open>main\<close> ends the run with
  status 1.
\<close>

definition script :: "world \<Rightarrow> args \<Rightarrow> state \<Rightarrow> nat \<times> state" where
  "script w a st =
     (case get_json_data w a st of
        Inl msgs \<Rightarrow> (1, st\<lparr>out := out st @ msgs\<rparr>)
      | Inr json_data \<Rightarrow>
      (case json_loads w json_data of
        None \<Rightarrow> (1, emit ErrorInvalidJSON st)
      | Some _ \<Rightarrow>
      (case main w json_data (output_dir a) st of
        (Inl JSONDecodeError, st') \<Rightarrow> (1, emit ErrorInvalidJSON st')
      | (Inl e, st') \<Rightarrow> (1, emit (ErrorOccurred e) st')
      | (Inr _, st') \<Rightarrow> (0, st'))))"

section \<open>Observations on a state\<close>

text \<open>The bytes of the file at a resolved path, if there is a file.\<close>

definition file_at :: "state \<Rightarrow> path \<Rightarrow> byte list option" where
  "file_at st p = (case fs st p of Some (File b) \<Rightarrow> Some b | _ \<Rightarrow> None)"

text \<open>
  Where a path leads when every directory on the way exists: the resolution followed
  component by component, without looking at the file system.
\<close>

definition resolve :: "path \<Rightarrow> string list \<Rightarrow> path" where
  "resolve cur cs =
     fold (\<lambda>c cur. if is_dot c then cur else if c = ''..'' then butlast cur else cur @ [c]) cs cur"

definition dir_of :: "state \<Rightarrow> string \<Rightarrow> path" where
  "dir_of st name = resolve (start_dir st name) (split_path name)"

text \<open>A name that is a single path component of its own: not empty, not a dot name, no slash.\<close>

definition proper_name :: "string \<Rightarrow> bool" where
  "proper_name t = (t \<noteq> [] \<and> t \<noteq> ''.'' \<and> t \<noteq> ''..'' \<and> CHR ''/'' \<notin> set t)"

text \<open>The paths that creating the directories of a path looks at, in order.\<close>

fun visits :: "path \<Rightarrow> string list \<Rightarrow> path list" where
  "visits cur [] = []"
| "visits cur (c # cs) =
     (if is_dot c then visits cur cs
      else if c = ''..'' then visits (butlast cur) cs
      else (cur @ [c]) # visits (cur @ [c]) cs)"

text \<open>
  The sanitized titles of the courses of a catalog, in document order (a course whose title
  cannot be computed has none), the directory of a course with a given sanitized title, and
  the course directories that a run from \<open>st\<close> to \<open>st'\<close> created: those that are
  directories after it and were not before.
\<close>

fun titles_of :: "json list \<Rightarrow> string list" where
  "titles_of [] = []"
| "titles_of (course # rest) =
     (case course_title course of Inl e \<Rightarrow> titles_of rest | Inr t \<Rightarrow> t # titles_of rest)"

definition course_dir_path :: "state \<Rightarrow> string \<Rightarrow> string \<Rightarrow> path" where
  "course_dir_path st base_dir title = dir_of st (os_path_join base_dir title)"

definition created_course_dirs :: "state \<Rightarrow> state \<Rightarrow> string \<Rightarrow> json list \<Rightarrow> path set" where
  "created_course_dirs st st' base_dir courses =
     {p \<in> course_dir_path st base_dir ` set (titles_of courses). fs st p \<noteq> Some Dir \<and> fs st' p = Some Dir}"

text \<open>
  \<open>extends st st'\<close>: from \<open>st\<close> to \<open>st'\<close> the working directory is the same and every
  directory is still a directory.
\<close>

definition extends :: "state \<Rightarrow> state \<Rightarrow> bool" where
  "extends st st' = (cwd st' = cwd st \<and> (\<forall>p. fs st p = Some Dir \<longrightarrow> fs st' p = Some Dir))"


section \<open>Example inputs\<close>

text \<open>
  The example of the specification: one course with a file to fetch and a placeholder. Two
  more documents: three courses of which two have titles that sanitize to the same name, and
  a course whose title is \<^verbatim>\<open>..\<close>. The example world parses exactly these three texts, serves
  one file, answers 404 for another address and refuses every other connection. The example
  state is an empty file system: the root directory, which is also the working directory.
\<close>

definition example_document :: json where
  "example_document =
     JObj [(''data'', JArr [JObj [
        (''title'', JStr ''Algo 101''),
        (''uuid'', JStr ''u1''),
        (''materials'', JArr [
           JObj [(''fileName'', JStr ''notes:1.pdf''), (''link'', JStr ''http://x/notes1.pdf'')],
           JObj [(''fileName'', JStr ''f''), (''link'', JStr ''http://x/u1'')]])]])]"

definition example_text :: string where
  \<open>example_text = ''{"data":[{"title":"Algo 101","uuid":"u1","materials":[{"fileName":"notes:1.pdf","link":"http://x/notes1.pdf"},{"fileName":"f","link":"http://x/u1"}]}]}''\<close>

definition colliding_document :: json where
  "colliding_document =
     JObj [(''data'', JArr [
        JObj [(''title'', JStr ''a:b''), (''uuid'', JStr ''u1'')],
        JObj [(''title'', JStr ''a?b''), (''uuid'', JStr ''u2'')],
        JObj [(''title'', JStr ''c''), (''uuid'', JStr ''u3'')]])]"

definition colliding_text :: string where
  \<open>colliding_text = ''{"data":[{"title":"a:b","uuid":"u1"},{"title":"a?b","uuid":"u2"},{"title":"c","uuid":"u3"}]}''\<close>

definition dotdot_document :: json where
  "dotdot_document = JObj [(''data'', JArr [JObj [(''title'', JStr ''..''), (''uuid'', JStr ''u1'')]])]"

definition dotdot_text :: string where
  \<open>dotdot_text = ''{"data":[{"title":"..","uuid":"u1"}]}''\<close>

definition example_world :: world where
  "example_world =
     \<lparr>http_get = (\<lambda>k url.
         if url = ''http://x/notes1.pdf''
         then Inr \<lparr>status_code = 200, content = [0x25, 0x50, 0x44, 0x46], breaks_after = None\<rparr>
         else if url = ''http://x/gone.pdf''
         then Inr \<lparr>status_code = 404, content = [], breaks_after = None\<rparr>
         else Inl ConnectionError),
      json_loads = (\<lambda>text.
         if text = example_text then Some example_document
         else if text = colliding_text then Some colliding_document
         else if text = dotdot_text then Some dotdot_document
         else None),
      utf8_decode = (\<lambda>bs. Some (map (\<lambda>b. char_of (unat b)) bs))\<rparr>"

definition example_state :: state where
  "example_state = \<lparr>fs = [[] \<mapsto> Dir], cwd = [], requests = [], out = [], slept = 0\<rparr>"

definition example_course :: json where
  "example_course = JObj [(''title'', JStr ''Algo 101''), (''uuid'', JStr ''u1'')]"

definition colliding_courses :: "json list" where
  "colliding_courses =
     [JObj [(''title'', JStr ''a:b''), (''uuid'', JStr ''u1'')],
      JObj [(''title'', JStr ''a?b''), (''uuid'', JStr ''u2'')],
      JObj [(''title'', JStr ''c''), (''uuid'', JStr ''u3'')]]"

section \<open>Properties of the sanitizer\<close>

lemma str_replace_fold_map:
  "u \<notin> set cs \<Longrightarrow>
   fold (\<lambda>char fn. str_replace char u fn) cs s = map (\<lambda>c. if c \<in> set cs then u else c) s"
proof (induction cs arbitrary: s)
  case Nil
  then show ?case by simp
next
  case (Cons a cs)
  then have "fold (\<lambda>char fn. str_replace char u fn) (a # cs) s
      = map (\<lambda>c. if c \<in> set cs then u else c) (str_replace a u s)"
    by simp
  also have "\<dots> = map (\<lambda>c. if c \<in> set (a # cs) then u else c) s"
    using Cons.prems by (auto simp: str_replace_def)
  finally show ?case .
qed

lemma underscore_valid: "CHR ''_'' \<notin> set invalid_chars"
  by (simp add: invalid_chars_def)

lemma sanitize_filename_map:
  "sanitize_filename s = map (\<lambda>c. if c \<in> set invalid_chars then CHR ''_'' else c) s"
  unfolding sanitize_filename_def by (rule str_replace_fold_map [OF underscore_valid])

lemma sanitize_filename_clean: "set (sanitize_filename s) \<inter> set invalid_chars = {}"
  using underscore_valid by (auto simp: sanitize_filename_map)

lemma sanitize_filename_fixed:
  "set s \<inter> set invalid_chars = {} \<Longrightarrow> sanitize_filename s = s"
  unfolding sanitize_filename_map by (induction s) auto

lemma sanitize_filename_Nil [simp]: "sanitize_filename [] = []"
  by (simp add: sanitize_filename_map)

lemma sanitize_filename_Cons:
  "sanitize_filename (c # s) = (if c \<in> set invalid_chars then CHR ''_'' else c) # sanitize_filename s"
  by (simp add: sanitize_filename_map)

lemma sanitize_filename_append:
  "sanitize_filename (s @ t) = sanitize_filename s @ sanitize_filename t"
  by (simp add: sanitize_filename_map)

lemma length_sanitize_filename [simp]: "length (sanitize_filename s) = length s"
  by (simp add: sanitize_filename_map)

lemma sanitize_filename_eq_Nil [simp]: "sanitize_filename s = [] \<longleftrightarrow> s = []"
  by (simp add: sanitize_filename_map)

text \<open>
  Claim C3. For every string \<open>s\<close>, \<open>sanitize_filename s\<close> is \<open>s\<close> with each occurrence of one
  of the nine characters \<^verbatim>\<open>< > : " / \ | ? *\<close> replaced by an underscore and every other
  character kept, in place: the length is kept, a character outside the set (a non-ASCII
  one, a blank at either end) is unchanged, the empty string is returned as it is, and the
  result has no character of the set.
\<close>

theorem sanitize_filename_spec:
  "sanitize_filename s = map (\<lambda>c. if c \<in> set invalid_chars then CHR ''_'' else c) s
   \<and> set invalid_chars =
       {CHR ''<'', CHR ''>'', CHR '':'', CHR 0x22, CHR ''/'', CHR 0x5C, CHR ''|'', CHR ''?'', CHR ''*''}
   \<and> length (sanitize_filename s) = length s
   \<and> (\<forall>i. i < length s \<and> s ! i \<notin> set invalid_chars \<longrightarrow> sanitize_filename s ! i = s ! i)
   \<and> (\<forall>i. i < length s \<and> s ! i \<in> set invalid_chars \<longrightarrow> sanitize_filename s ! i = CHR ''_'')
   \<and> (\<forall>c. 128 \<le> (of_char c :: nat) \<longrightarrow> sanitize_filename (pre @ c # post) = sanitize_filename pre @ c # sanitize_filename post)
   \<and> sanitize_filename (CHR '' '' # s) = CHR '' '' # sanitize_filename s
   \<and> sanitize_filename (s @ [CHR '' '']) = sanitize_filename s @ [CHR '' '']
   \<and> sanitize_filename [] = []
   \<and> set (sanitize_filename s) \<inter> set invalid_chars = {}"
proof -
  have non_ascii: "c \<notin> set invalid_chars" if "128 \<le> (of_char c :: nat)" for c
    using that by (auto simp: invalid_chars_def)
  have blank: "CHR '' '' \<notin> set invalid_chars"
    by (simp add: invalid_chars_def)
  show ?thesis
    using non_ascii blank
    by (auto simp: sanitize_filename_clean sanitize_filename_append sanitize_filename_Cons)
       (auto simp: sanitize_filename_map invalid_chars_def)
qed

theorem sanitize_filename_spec_witness:
  "sanitize_filename ''a<b>:c/d|e?f*g '' = ''a_b__c_d_e_f_g ''
   \<and> sanitize_filename [CHR 0xD0, CHR 0x96, CHR 0x5C, CHR 0x22] = [CHR 0xD0, CHR 0x96, CHR ''_'', CHR ''_'']"
  using sanitize_filename_spec [of "''a<b>:c/d|e?f*g ''" "[]" "[]"]
    sanitize_filename_spec [of "[CHR 0xD0, CHR 0x96, CHR 0x5C, CHR 0x22]" "[]" "[]"]
  by (simp add: invalid_chars_def)

text \<open>
  Claim C4. Sanitization is idempotent: sanitizing an already sanitized string returns it
  unchanged.
\<close>

theorem sanitize_filename_idempotent:
  "sanitize_filename (sanitize_filename s) = sanitize_filename s"
  by (rule sanitize_filename_fixed [OF sanitize_filename_clean])

lemmas run_defs =
  main_def catalog_courses_def dict_get_def py_iter_def process_course_def course_title_def
  sanitize_value_def os_makedirs_def start_dir_def is_dot_def os_path_join_def
  sanitize_filename_map invalid_chars_def course_materials_def process_material_def
  material_file_name_def material_link_def skip_material_def str_endswith_def download_file_def
  raise_for_status_def os_path_dirname_def open_wb_def file_target_def read_bytes_def path_parts_def
  iter_content_def chunks_of.simps file_write_def emit_def time_sleep_def file_at_def
  example_world_def example_state_def example_document_def example_text_def
  colliding_text_def dotdot_text_def

section \<open>Skipping placeholders\<close>

lemma str_endswith_iff: "str_endswith s u \<longleftrightarrow> (\<exists>pre. s = pre @ u)"
proof
  assume "str_endswith s u"
  then have "s = take (length s - length u) s @ u"
    unfolding str_endswith_def by (metis append_take_drop_id)
  then show "\<exists>pre. s = pre @ u" ..
next
  assume "\<exists>pre. s = pre @ u"
  then show "str_endswith s u" by (auto simp: str_endswith_def)
qed

lemma str_endswith_Nil [simp]: "str_endswith s []"
  by (simp add: str_endswith_def)

lemma skip_material_empty [simp]: "skip_material (JStr []) course = Inr True"
  by (simp add: skip_material_def)

lemma skip_material_suffix:
  "dict_get course ''uuid'' (JStr []) = Inr (JStr u) \<Longrightarrow> skip_material (JStr (pre @ u)) course = Inr True"
  by (simp add: skip_material_def str_endswith_iff)

lemma skip_material_False_str:
  "skip_material v course = Inr False \<Longrightarrow> \<exists>url. v = JStr url \<and> url \<noteq> []"
  by (cases v) (auto simp: skip_material_def split: if_splits)

lemma dict_get_missing: "map_of items key = None \<Longrightarrow> dict_get (JObj items) key d = Inr d"
  by (simp add: dict_get_def)

lemma dict_get_present: "map_of items key = Some v \<Longrightarrow> dict_get (JObj items) key d = Inr v"
  by (simp add: dict_get_def)

lemma skip_material_no_uuid:
  "map_of items ''uuid'' = None \<Longrightarrow> skip_material v (JObj items) \<noteq> Inr False"
  by (cases v) (auto simp: skip_material_def dict_get_missing)

lemma process_material_download:
  assumes "material_file_name material = Inr file_name"
    and "material_link material = Inr (JStr url)"
    and "skip_material (JStr url) course = Inr False"
  shows "process_material w course_dir course material st
       = (Inr (), time_sleep (snd (download_file w url (os_path_join course_dir file_name) st)))"
  using assms by (simp add: process_material_def split: prod.splits)

text \<open>
  Claim C2. For a course and one of its materials (a material with a file name and an
  address, as the data model has it: \<open>material_file_name\<close> and \<open>material_link\<close> return a
  string), if the address is empty, or ends with the identifier of the course, the material
  is skipped: the loop body returns normally with the state as it was, so that no request
  was issued, no file was created and nothing was reported, and the loop goes on with the
  rest.
\<close>

theorem placeholder_is_skipped:
  assumes "material_file_name material = Inr file_name"
    and "material_link material = Inr (JStr url)"
    and "url = [] \<or> (\<exists>u pre. dict_get course ''uuid'' (JStr []) = Inr (JStr u) \<and> url = pre @ u)"
  shows "process_material w course_dir course material st = (Inr (), st)
    \<and> process_materials w course_dir course (material # rest) st
        = process_materials w course_dir course rest st"
proof -
  from assms(3) have "skip_material (JStr url) course = Inr True"
    by (auto simp: skip_material_suffix)
  with assms(1,2) have "process_material w course_dir course material st = (Inr (), st)"
    by (simp add: process_material_def)
  then show ?thesis by simp
qed

theorem placeholder_is_skipped_witness:
  "process_material example_world ''downloads/Algo 101'' example_course
     (JObj [(''fileName'', JStr ''f''), (''link'', JStr ''http://x/u1'')]) example_state
   = (Inr (), example_state)
   \<and> process_material example_world ''downloads/Algo 101'' example_course
     (JObj [(''fileName'', JStr ''f'')]) example_state
   = (Inr (), example_state)"
proof -
  let ?m = "JObj [(''fileName'', JStr ''f''), (''link'', JStr ''http://x/u1'')]"
  let ?n = "JObj [(''fileName'', JStr ''f'')]"
  have h1: "material_file_name ?m = Inr ''f''" "material_file_name ?n = Inr ''f''"
    by (simp_all add: material_file_name_def dict_get_def sanitize_value_def sanitize_filename_map invalid_chars_def)
  have h2: "material_link ?m = Inr (JStr ''http://x/u1'')" "material_link ?n = Inr (JStr [])"
    by (simp_all add: material_link_def dict_get_def)
  have "dict_get example_course ''uuid'' (JStr []) = Inr (JStr ''u1'') \<and> ''http://x/u1'' = ''http://x/'' @ ''u1''"
    by (simp add: example_course_def dict_get_def)
  then have h3: "''http://x/u1'' = [] \<or> (\<exists>u pre. dict_get example_course ''uuid'' (JStr []) = Inr (JStr u)
        \<and> ''http://x/u1'' = pre @ u)"
    by blast
  have h4: "([]::string) = [] \<or> (\<exists>u pre. dict_get example_course ''uuid'' (JStr []) = Inr (JStr u)
        \<and> [] = pre @ u)"
    by simp
  from placeholder_is_skipped [OF h1(1) h2(1) h3, of example_world "''downloads/Algo 101''" example_state "[]"]
    placeholder_is_skipped [OF h1(2) h2(2) h4, of example_world "''downloads/Algo 101''" example_state "[]"]
  show ?thesis by simp
qed

section \<open>What a step leaves alone\<close>

text \<open>Creating directories keeps every node there is, and adds directories only.\<close>

lemma mkdir_walk_keeps:
  "mkdir_walk f cur cs = (r, g) \<Longrightarrow> f p = Some n \<Longrightarrow> g p = Some n"
proof (induction f cur cs arbitrary: r g rule: mkdir_walk.induct)
  case (1 f cur)
  then show ?case by simp
next
  case (2 f cur c cs)
  show ?case
  proof (cases "is_dot c \<or> c = ''..''")
    case True
    with 2 show ?thesis by (auto split: if_splits)
  next
    case False
    show ?thesis
    proof (cases "f (cur @ [c])")
      case None
      with "2.prems"(2) have "p \<noteq> cur @ [c]" by auto
      with "2.prems"(2) have "(f(cur @ [c] \<mapsto> Dir)) p = Some n" by simp
      moreover from "2.prems"(1) False None
      have "mkdir_walk (f(cur @ [c] \<mapsto> Dir)) (cur @ [c]) cs = (r, g)" by simp
      ultimately show ?thesis using "2.IH"(3) False None by blast
    next
      case (Some m)
      with 2 False show ?thesis by (cases m) (auto split: if_splits)
    qed
  qed
qed

lemma mkdir_walk_new:
  "mkdir_walk f cur cs = (r, g) \<Longrightarrow> f p = None \<Longrightarrow> g p = None \<or> g p = Some Dir"
proof (induction f cur cs arbitrary: r g rule: mkdir_walk.induct)
  case (1 f cur)
  then show ?case by simp
next
  case (2 f cur c cs)
  show ?case
  proof (cases "is_dot c \<or> c = ''..''")
    case True
    with 2 show ?thesis by (auto split: if_splits)
  next
    case False
    show ?thesis
    proof (cases "f (cur @ [c])")
      case None
      with "2.prems"(1) False
      have w: "mkdir_walk (f(cur @ [c] \<mapsto> Dir)) (cur @ [c]) cs = (r, g)" by simp
      show ?thesis
      proof (cases "p = cur @ [c]")
        case True
        then have "(f(cur @ [c] \<mapsto> Dir)) p = Some Dir" by simp
        from mkdir_walk_keeps [OF w this] show ?thesis by simp
      next
        case neq: False
        with "2.prems"(2) have "(f(cur @ [c] \<mapsto> Dir)) p = None" by simp
        with "2.IH"(3) False None w show ?thesis by blast
      qed
    next
      case (Some m)
      with 2 False show ?thesis by (cases m) (auto split: if_splits)
    qed
  qed
qed

lemma os_makedirs_frame:
  assumes "os_makedirs name st = (r, st')"
  shows "requests st' = requests st" "out st' = out st" "slept st' = slept st" "cwd st' = cwd st"
  using assms by (auto simp: os_makedirs_def split: if_splits prod.splits)

lemma os_makedirs_file_at:
  assumes "os_makedirs name st = (r, st')"
  shows "file_at st' = file_at st"
proof
  fix p
  from assms consider "st' = st" | g where "mkdir_walk (fs st) (start_dir st name) (split_path name) = (r, g)" "fs st' = g"
    by (auto simp: os_makedirs_def split: if_splits prod.splits)
  then show "file_at st' p = file_at st p"
  proof cases
    case 1
    then show ?thesis by simp
  next
    case 2
    show ?thesis
    proof (cases "fs st p")
      case None
      with mkdir_walk_new [OF 2(1), of p] 2(2) show ?thesis by (auto simp: file_at_def)
    next
      case (Some n)
      with mkdir_walk_keeps [OF 2(1), of p] 2(2) show ?thesis by (auto simp: file_at_def)
    qed
  qed
qed

lemma emit_frame [simp]:
  "fs (emit e st) = fs st" "requests (emit e st) = requests st" "cwd (emit e st) = cwd st"
  "slept (emit e st) = slept st" "out (emit e st) = out st @ [e]" "file_at (emit e st) = file_at st"
  by (auto simp: emit_def file_at_def)

lemma time_sleep_frame [simp]:
  "fs (time_sleep st) = fs st" "requests (time_sleep st) = requests st" "cwd (time_sleep st) = cwd st"
  "slept (time_sleep st) = Suc (slept st)" "out (time_sleep st) = out st" "file_at (time_sleep st) = file_at st"
  by (auto simp: time_sleep_def file_at_def)

lemma open_wb_frame:
  assumes "open_wb name st = (r, st')"
  shows "requests st' = requests st" "out st' = out st" "slept st' = slept st" "cwd st' = cwd st"
  using assms by (auto simp: open_wb_def split: sum.splits)

lemma file_write_frame [simp]:
  "requests (file_write p chunk st) = requests st" "out (file_write p chunk st) = out st"
  "slept (file_write p chunk st) = slept st" "cwd (file_write p chunk st) = cwd st"
  by (auto simp: file_write_def split: option.splits node.splits)

lemma write_chunks_frame [simp]:
  "requests (write_chunks p chunks st) = requests st" "out (write_chunks p chunks st) = out st"
  "slept (write_chunks p chunks st) = slept st" "cwd (write_chunks p chunks st) = cwd st"
  by (induction chunks arbitrary: st) auto

lemma process_material_no_uuid:
  assumes "map_of items ''uuid'' = None"
  shows "snd (process_material w course_dir (JObj items) material st) = st"
proof -
  have "skip_material v (JObj items) = Inr False \<Longrightarrow> False" for v
    using skip_material_no_uuid [OF assms] by blast
  then show ?thesis
    by (auto simp: process_material_def split: sum.splits bool.splits json.splits)
qed

lemma process_materials_no_uuid:
  assumes "map_of items ''uuid'' = None"
  shows "snd (process_materials w course_dir (JObj items) materials st) = st"
proof (induction materials)
  case Nil
  then show ?case by simp
next
  case (Cons m ms)
  obtain r where "process_material w course_dir (JObj items) m st = (r, st)"
    using process_material_no_uuid [OF assms, of w course_dir m st] by (metis prod.collapse)
  with Cons show ?case by (cases r) auto
qed

lemma process_course_no_uuid:
  assumes "map_of items ''uuid'' = None"
  shows "requests (snd (process_course w base_dir (JObj items) st)) = requests st
       \<and> file_at (snd (process_course w base_dir (JObj items) st)) = file_at st"
proof (cases "course_title (JObj items)")
  case (Inl e)
  then show ?thesis by (simp add: process_course_def)
next
  case (Inr title)
  obtain r st1 where mk: "os_makedirs (os_path_join base_dir title) st = (r, st1)"
    by (cases "os_makedirs (os_path_join base_dir title) st")
  note fr = os_makedirs_frame(1) [OF mk] os_makedirs_file_at [OF mk]
  show ?thesis
  proof (cases r)
    case (Inl e)
    with Inr mk fr show ?thesis by (simp add: process_course_def)
  next
    case r: (Inr u)
    show ?thesis
    proof (cases "course_materials (JObj items)")
      case (Inl e)
      with Inr mk r fr show ?thesis by (simp add: process_course_def)
    next
      case ms: (Inr materials)
      have "snd (process_materials w (os_path_join base_dir title) (JObj items) materials
                  (emit (ProcessingCourse title) st1)) = emit (ProcessingCourse title) st1"
        by (rule process_materials_no_uuid [OF assms])
      with Inr mk r ms fr show ?thesis by (simp add: process_course_def)
    qed
  qed
qed

text \<open>
  Claim C10. For a course without the key \<^verbatim>\<open>uuid\<close>, the suffix tested is the empty string,
  which every address ends with: every material leaves the state as it was (no request, no
  file), whatever its address; a material with a file name and an address is skipped without
  an error; and the whole course issues no request and creates or changes no file.
\<close>

theorem no_uuid_skips_everything:
  assumes "map_of items ''uuid'' = None"
  shows "snd (process_material w course_dir (JObj items) material st) = st
    \<and> (material_file_name material = Inr file_name \<and> material_link material = Inr (JStr url)
         \<longrightarrow> process_material w course_dir (JObj items) material st = (Inr (), st))
    \<and> snd (process_materials w course_dir (JObj items) materials st) = st
    \<and> requests (snd (process_course w base_dir (JObj items) st)) = requests st
    \<and> file_at (snd (process_course w base_dir (JObj items) st)) = file_at st"
proof -
  have "process_material w course_dir (JObj items) material st = (Inr (), st)"
    if "material_file_name material = Inr file_name" "material_link material = Inr (JStr url)"
  proof -
    have "skip_material (JStr url) (JObj items) = Inr True"
      using assms by (simp add: skip_material_def dict_get_missing)
    with that show ?thesis by (simp add: process_material_def)
  qed
  with process_material_no_uuid [OF assms] process_materials_no_uuid [OF assms]
    process_course_no_uuid [OF assms]
  show ?thesis by blast
qed

theorem no_uuid_skips_everything_witness:
  "process_material example_world ''downloads/T'' (JObj [(''title'', JStr ''T'')])
     (JObj [(''fileName'', JStr ''notes.pdf''), (''link'', JStr ''http://x/notes1.pdf'')]) example_state
   = (Inr (), example_state)
   \<and> requests (snd (process_course example_world ''downloads''
        (JObj [(''title'', JStr ''T''), (''materials'', JArr [
           JObj [(''fileName'', JStr ''notes.pdf''), (''link'', JStr ''http://x/notes1.pdf'')]])])
        example_state)) = []"
proof -
  let ?m = "JObj [(''fileName'', JStr ''notes.pdf''), (''link'', JStr ''http://x/notes1.pdf'')]"
  let ?c = "[(''title'', JStr ''T''), (''materials'', JArr [?m])]"
  have h1: "map_of [(''title'', JStr ''T'')] ''uuid'' = None" "map_of ?c ''uuid'' = None"
    by simp_all
  have h2: "material_file_name ?m = Inr ''notes.pdf''"
    by (simp add: material_file_name_def dict_get_def sanitize_value_def sanitize_filename_map invalid_chars_def)
  have h3: "material_link ?m = Inr (JStr ''http://x/notes1.pdf'')"
    by (simp add: material_link_def dict_get_def)
  from no_uuid_skips_everything [OF h1(1), of example_world "''downloads/T''" ?m example_state
      "''notes.pdf''" "''http://x/notes1.pdf''" "[]" "''downloads''"]
    no_uuid_skips_everything [OF h1(2), of example_world "''downloads/T''" ?m example_state
      "''notes.pdf''" "''http://x/notes1.pdf''" "[]" "''downloads''"] h2 h3
  show ?thesis by (simp add: example_state_def)
qed

section \<open>Missing fields\<close>

text \<open>
  Claim C5. A field that is missing does not raise and gives its default: without
  \<^verbatim>\<open>data\<close> the catalog has no course, and \<^verbatim>\<open>main\<close> only creates the base directory and
  prints the last line; without \<^verbatim>\<open>title\<close> the title is \<^verbatim>\<open>Unknown\<close>; without \<^verbatim>\<open>materials\<close>
  the course has no material; without \<^verbatim>\<open>fileName\<close> the file name is \<^verbatim>\<open>unknown_file\<close>;
  without \<^verbatim>\<open>link\<close> the address is empty, so that the material is skipped.
\<close>

theorem missing_fields_default:
  "(map_of doc ''data'' = None \<longrightarrow>
      catalog_courses (JObj doc) = Inr []
      \<and> (json_loads w text = Some (JObj doc) \<longrightarrow>
           main w text base_dir st =
             (case os_makedirs base_dir st of
                (Inl e, st1) \<Rightarrow> (Inl e, st1)
              | (Inr u, st1) \<Rightarrow> (Inr (), emit Completed st1))))
   \<and> (map_of course ''title'' = None \<longrightarrow> course_title (JObj course) = Inr ''Unknown'')
   \<and> (map_of course ''materials'' = None \<longrightarrow> course_materials (JObj course) = Inr [])
   \<and> (map_of material ''fileName'' = None \<longrightarrow> material_file_name (JObj material) = Inr ''unknown_file'')
   \<and> (map_of material ''link'' = None \<longrightarrow>
        material_link (JObj material) = Inr (JStr [])
        \<and> (material_file_name (JObj material) = Inr file_name \<longrightarrow>
             process_material w course_dir c (JObj material) st = (Inr (), st)))"
proof -
  have unknown: "sanitize_filename ''Unknown'' = ''Unknown''"
    and unknown_file: "sanitize_filename ''unknown_file'' = ''unknown_file''"
    by (simp_all add: sanitize_filename_map invalid_chars_def)
  have "main w text base_dir st =
             (case os_makedirs base_dir st of
                (Inl e, st1) \<Rightarrow> (Inl e, st1)
              | (Inr u, st1) \<Rightarrow> (Inr (), emit Completed st1))"
    if "map_of doc ''data'' = None" "json_loads w text = Some (JObj doc)"
    using that
    by (simp add: main_def catalog_courses_def dict_get_missing py_iter_def
        split: prod.splits sum.splits)
  moreover have "process_material w course_dir c (JObj material) st = (Inr (), st)"
    if "map_of material ''link'' = None" "material_file_name (JObj material) = Inr file_name"
    using that by (simp add: process_material_def material_link_def dict_get_missing)
  ultimately show ?thesis
    by (simp add: catalog_courses_def course_title_def course_materials_def material_file_name_def
        material_link_def dict_get_missing py_iter_def sanitize_value_def unknown unknown_file)
qed

theorem missing_fields_default_witness:
  "catalog_courses (JObj []) = Inr []
   \<and> fst (main (example_world\<lparr>json_loads := \<lambda>text. Some (JObj [])\<rparr>) ''{}'' ''downloads'' example_state) = Inr ()
   \<and> course_title (JObj [(''uuid'', JStr ''u1'')]) = Inr ''Unknown''
   \<and> course_materials (JObj [(''uuid'', JStr ''u1'')]) = Inr []
   \<and> material_file_name (JObj [(''link'', JStr ''http://x/notes1.pdf'')]) = Inr ''unknown_file''
   \<and> material_link (JObj [(''fileName'', JStr ''f'')]) = Inr (JStr [])"
  using missing_fields_default [of "[]" "example_world\<lparr>json_loads := \<lambda>text. Some (JObj [])\<rparr>" "''{}''"
      "''downloads''" example_state "[(''uuid'', JStr ''u1'')]" "[(''link'', JStr ''http://x/notes1.pdf'')]"
      "''unknown_file''" "''downloads''" JNull]
    missing_fields_default [of "[]" "example_world\<lparr>json_loads := \<lambda>text. Some (JObj [])\<rparr>" "''{}''"
      "''downloads''" example_state "[(''uuid'', JStr ''u1'')]" "[(''fileName'', JStr ''f'')]"
      "''f''" "''downloads''" JNull]
  by (simp add: os_makedirs_def start_dir_def is_dot_def example_state_def)

text \<open>
  Claim C6, as amended. The default \<^verbatim>\<open>unknown_file\<close> is the file name of a material that
  has no \<^verbatim>\<open>fileName\<close>, and the destination of its download is formed with it. A file name
  that is present is sanitized and used as it is, the empty one included.
\<close>

theorem file_name_fallback:
  "(map_of material ''fileName'' = None \<longrightarrow>
      material_file_name (JObj material) = Inr ''unknown_file''
      \<and> (material_link (JObj material) = Inr (JStr url) \<and> skip_material (JStr url) course = Inr False \<longrightarrow>
           process_material w course_dir course (JObj material) st
             = (Inr (), time_sleep (snd (download_file w url (os_path_join course_dir ''unknown_file'') st)))))
   \<and> (map_of material ''fileName'' = Some (JStr s) \<longrightarrow>
      material_file_name (JObj material) = Inr (sanitize_filename s)
      \<and> (material_link (JObj material) = Inr (JStr url) \<and> skip_material (JStr url) course = Inr False \<longrightarrow>
           process_material w course_dir course (JObj material) st
             = (Inr (), time_sleep (snd (download_file w url (os_path_join course_dir (sanitize_filename s)) st)))))"
proof -
  have unknown_file: "sanitize_filename ''unknown_file'' = ''unknown_file''"
    by (simp add: sanitize_filename_map invalid_chars_def)
  have a: "material_file_name (JObj material) = Inr ''unknown_file''"
    if "map_of material ''fileName'' = None"
    using that by (simp add: material_file_name_def dict_get_missing sanitize_value_def unknown_file)
  have b: "material_file_name (JObj material) = Inr (sanitize_filename s)"
    if "map_of material ''fileName'' = Some (JStr s)"
    using that by (simp add: material_file_name_def dict_get_present sanitize_value_def)
  show ?thesis
    using a b by (auto simp: process_material_download)
qed

theorem file_name_fallback_witness:
  "material_file_name (JObj [(''link'', JStr ''http://x/notes1.pdf'')]) = Inr ''unknown_file''
   \<and> material_file_name (JObj [(''fileName'', JStr ''notes:1.pdf''), (''link'', JStr ''http://x/notes1.pdf'')])
       = Inr ''notes_1.pdf''
   \<and> out (snd (process_material example_world ''downloads/Algo 101'' example_course
        (JObj [(''link'', JStr ''http://x/notes1.pdf'')]) example_state))
       = [Downloaded ''downloads/Algo 101/unknown_file'']"
proof -
  let ?a = "[(''link'', JStr ''http://x/notes1.pdf'')]"
  let ?b = "[(''fileName'', JStr ''notes:1.pdf''), (''link'', JStr ''http://x/notes1.pdf'')]"
  have h: "material_link (JObj ?a) = Inr (JStr ''http://x/notes1.pdf'')"
    "skip_material (JStr ''http://x/notes1.pdf'') example_course = Inr False"
    by (simp_all add: material_link_def skip_material_def example_course_def dict_get_def str_endswith_def)
  from file_name_fallback [of ?a "''http://x/notes1.pdf''" example_course example_world
      "''downloads/Algo 101''" example_state "[]"]
    file_name_fallback [of ?b "''http://x/notes1.pdf''" example_course example_world
      "''downloads/Algo 101''" example_state "''notes:1.pdf''"] h
  show ?thesis
    by (simp add: run_defs)
qed

text \<open>
  Claim C6 as stated fails for a file name that is present and empty: the name used is the
  empty string, the destination is the course directory with a slash at its end, and the
  download ends with \<^verbatim>\<open>IsADirectoryError\<close>; no file \<^verbatim>\<open>unknown_file\<close> appears.
\<close>

theorem file_name_counterexample:
  "material_file_name (JObj [(''fileName'', JStr []), (''link'', JStr ''http://x/notes1.pdf'')]) = Inr []
   \<and> material_file_name (JObj [(''fileName'', JStr []), (''link'', JStr ''http://x/notes1.pdf'')])
       \<noteq> Inr ''unknown_file''
   \<and> os_path_join ''downloads/Algo 101'' [] = ''downloads/Algo 101/''
   \<and> out (snd (process_material example_world ''downloads/Algo 101'' example_course
        (JObj [(''fileName'', JStr []), (''link'', JStr ''http://x/notes1.pdf'')]) example_state))
       = [ErrorDownloading ''http://x/notes1.pdf'' IsADirectoryError]
   \<and> file_at (snd (process_material example_world ''downloads/Algo 101'' example_course
        (JObj [(''fileName'', JStr []), (''link'', JStr ''http://x/notes1.pdf'')]) example_state))
        [''downloads'', ''Algo 101'', ''unknown_file''] = None"
  by (simp add: run_defs example_course_def)

section \<open>Failures of a download\<close>

text \<open>What a download reports, whatever happens, and the causes of a failure.\<close>

lemma download_file_report:
  assumes "download_file w url dest st = (ok, st')"
  shows "requests st' = requests st @ [url]
    \<and> (if ok then out st' = out st @ [Downloaded dest]
        else \<exists>e. out st' = out st @ [ErrorDownloading url e])"
proof -
  let ?st0 = "st\<lparr>requests := requests st @ [url]\<rparr>"
  show ?thesis
  proof (cases "http_get w (length (requests st)) url")
    case (Inl e)
    with assms show ?thesis by (auto simp: download_file_def)
  next
    case (Inr response)
    show ?thesis
    proof (cases "raise_for_status response")
      case (Inl e)
      with Inr assms show ?thesis by (auto simp: download_file_def)
    next
      case ok_status: (Inr u)
      obtain r1 st1 where mk: "os_makedirs (os_path_dirname dest) ?st0 = (r1, st1)"
        by (cases "os_makedirs (os_path_dirname dest) ?st0")
      note f1 = os_makedirs_frame(1,2) [OF mk]
      show ?thesis
      proof (cases r1)
        case (Inl e)
        with Inr ok_status mk f1 assms show ?thesis by (auto simp: download_file_def)
      next
        case mk_ok: (Inr u1)
        obtain r2 st2 where op: "open_wb dest st1 = (r2, st2)"
          by (cases "open_wb dest st1")
        note f2 = open_wb_frame(1,2) [OF op]
        show ?thesis
        proof (cases r2)
          case (Inl e)
          with Inr ok_status mk mk_ok op f1 f2 assms show ?thesis by (auto simp: download_file_def)
        next
          case op_ok: (Inr fh)
          obtain chunks err where it: "iter_content response 8192 = (chunks, err)"
            by (cases "iter_content response 8192")
          with Inr ok_status mk mk_ok op op_ok f1 f2 assms show ?thesis
            by (cases err) (auto simp: download_file_def)
        qed
      qed
    qed
  qed
qed







section \<open>Malformed input\<close>

text \<open>
  Claim C8. When the text of the document (the one the script got from its arguments, or
  the one given as \<^verbatim>\<open>--json-string\<close> with no file) is not well-formed, the script ends with
  status 1, and the final state has the file system and the list of requests of the initial
  one: no directory was created and no request was issued.
\<close>

theorem malformed_text_exits:
  assumes "json_loads w json_data = None"
    and "get_json_data w a st = Inr json_data \<or> (json_string a = Some json_data \<and> json_file a = None)"
  shows "fst (script w a st) = 1
    \<and> fs (snd (script w a st)) = fs st
    \<and> requests (snd (script w a st)) = requests st
    \<and> (get_json_data w a st = Inr json_data \<longrightarrow> script w a st = (1, emit ErrorInvalidJSON st))"
proof (cases "get_json_data w a st")
  case (Inl msgs)
  then show ?thesis by (simp add: script_def)
next
  case (Inr s)
  with assms have "s = json_data"
    by (auto simp: get_json_data_def given_def split: if_splits)
  with Inr assms(1) show ?thesis by (simp add: script_def)
qed

theorem malformed_text_exits_witness:
  "script example_world \<lparr>json_file = None, output_dir = ''downloads'', json_string = Some ''{not json''\<rparr>
     example_state = (1, emit ErrorInvalidJSON example_state)"
proof -
  let ?a = "\<lparr>json_file = None, output_dir = ''downloads'', json_string = Some ''{not json''\<rparr>"
  have h1: "json_loads example_world ''{not json'' = None"
    by (simp add: example_world_def example_text_def colliding_text_def dotdot_text_def)
  have h2: "get_json_data example_world ?a example_state = Inr ''{not json''
      \<or> (json_string ?a = Some ''{not json'' \<and> json_file ?a = None)"
    by (simp add: get_json_data_def given_def)
  have h3: "get_json_data example_world ?a example_state = Inr ''{not json''"
    by (simp add: get_json_data_def given_def)
  from malformed_text_exits [OF h1 h2] h3 show ?thesis by simp
qed

section \<open>Paths and directories\<close>

lemma resolve_Nil [simp]: "resolve cur [] = cur"
  by (simp add: resolve_def)

lemma resolve_Cons:
  "resolve cur (c # cs) =
     (if is_dot c then resolve cur cs
      else if c = ''..'' then resolve (butlast cur) cs
      else resolve (cur @ [c]) cs)"
  by (simp add: resolve_def)

lemma resolve_append: "resolve cur (cs @ ds) = resolve (resolve cur cs) ds"
  by (simp add: resolve_def)

lemma resolve_proper: "proper_name t \<Longrightarrow> resolve cur (cs @ [t]) = resolve cur cs @ [t]"
  by (simp add: resolve_append resolve_Cons proper_name_def is_dot_def)

lemma resolve_empty_last [simp]: "resolve cur (cs @ [[]]) = resolve cur cs"
  by (simp add: resolve_append resolve_Cons is_dot_def)

lemma split_path_not_Nil [simp]: "split_path s \<noteq> []"
  by (induction s) (auto split: list.splits)

lemma split_path_no_slash: "CHR ''/'' \<notin> set t \<Longrightarrow> split_path t = [t]"
  by (induction t) auto

lemma split_path_slash: "split_path (a @ CHR ''/'' # b) = split_path a @ split_path b"
proof (induction a)
  case Nil
  then show ?case by simp
next
  case (Cons c a)
  then show ?case
    by (cases "split_path a") (auto split: list.splits)
qed

lemma split_path_join:
  assumes "proper_name t"
  shows "\<exists>pre. split_path (os_path_join a t) = pre @ [t]
           \<and> (\<forall>cur. resolve cur pre = resolve cur (split_path a))"
proof -
  from assms have t: "CHR ''/'' \<notin> set t" "t \<noteq> []" by (auto simp: proper_name_def)
  then have hd: "hd t \<noteq> CHR ''/''" by (cases t) auto
  note st = split_path_no_slash [OF t(1)]
  consider "a = []" | "a \<noteq> []" "last a = CHR ''/''" | "a \<noteq> []" "last a \<noteq> CHR ''/''" by blast
  then show ?thesis
  proof cases
    case 1
    with hd st have "split_path (os_path_join a t) = [] @ [t]" by (simp add: os_path_join_def)
    moreover have "resolve cur [] = resolve cur (split_path a)" for cur
      using 1 by (simp add: resolve_Cons is_dot_def)
    ultimately show ?thesis by blast
  next
    case 2
    then obtain a' where a: "a = a' @ ''/''" by (metis append_butlast_last_id)
    with hd 2 have "os_path_join a t = a' @ CHR ''/'' # t" by (simp add: os_path_join_def)
    then have "split_path (os_path_join a t) = split_path a' @ [t]"
      by (simp add: split_path_slash st)
    moreover have "split_path a = split_path a' @ [[]]"
      unfolding a by (simp add: split_path_slash)
    ultimately show ?thesis by simp
  next
    case 3
    with hd have "os_path_join a t = a @ CHR ''/'' # t" by (simp add: os_path_join_def)
    then have "split_path (os_path_join a t) = split_path a @ [t]"
      by (simp add: split_path_slash st)
    then show ?thesis by blast
  qed
qed

lemma start_dir_join:
  "proper_name t \<Longrightarrow> start_dir st (os_path_join a t) = start_dir st a"
  by (cases a; cases t) (auto simp: start_dir_def os_path_join_def proper_name_def)

lemma dir_of_join: "proper_name t \<Longrightarrow> dir_of st (os_path_join a t) = dir_of st a @ [t]"
  using split_path_join [of t a]
  by (auto simp: dir_of_def start_dir_join resolve_proper)

lemma mkdir_walk_append:
  "mkdir_walk f cur (cs @ ds) = (Inr (), g) \<Longrightarrow>
   \<exists>h. mkdir_walk f cur cs = (Inr (), h) \<and> mkdir_walk h (resolve cur cs) ds = (Inr (), g)"
proof (induction f cur cs arbitrary: g rule: mkdir_walk.induct)
  case (1 f cur)
  then show ?case by simp
next
  case (2 f cur c cs)
  show ?case
  proof (cases "is_dot c \<or> c = ''..''")
    case True
    with 2 show ?thesis by (auto simp: resolve_Cons split: if_splits)
  next
    case False
    show ?thesis
    proof (cases "f (cur @ [c])")
      case None
      with "2.prems" False
      have w: "mkdir_walk (f(cur @ [c] \<mapsto> Dir)) (cur @ [c]) (cs @ ds) = (Inr (), g)" by simp
      with "2.IH"(3) False None obtain h
        where "mkdir_walk (f(cur @ [c] \<mapsto> Dir)) (cur @ [c]) cs = (Inr (), h)"
          "mkdir_walk h (resolve (cur @ [c]) cs) ds = (Inr (), g)" by blast
      with False None show ?thesis by (simp add: resolve_Cons del: fun_upd_apply)
    next
      case (Some m)
      show ?thesis
      proof (cases m)
        case Dir
        with "2.prems" False Some
        have w: "mkdir_walk f (cur @ [c]) (cs @ ds) = (Inr (), g)" by simp
        with "2.IH"(4) False Some Dir obtain h
          where "mkdir_walk f (cur @ [c]) cs = (Inr (), h)"
            "mkdir_walk h (resolve (cur @ [c]) cs) ds = (Inr (), g)" by blast
        with False Some Dir show ?thesis by (simp add: resolve_Cons)
      next
        case (File b)
        with "2.prems" False Some show ?thesis by simp
      qed
    qed
  qed
qed

lemma mkdir_walk_proper:
  "proper_name t \<Longrightarrow> mkdir_walk f cur [t] = (Inr (), g) \<Longrightarrow> g (cur @ [t]) = Some Dir"
  by (auto simp: proper_name_def is_dot_def split: option.splits node.splits)

lemma os_makedirs_join_dir:
  assumes "proper_name t" and "os_makedirs (os_path_join a t) st = (Inr (), st')"
  shows "fs st' (dir_of st a @ [t]) = Some Dir"
proof -
  from split_path_join [OF assms(1), of a] obtain pre
    where pre: "split_path (os_path_join a t) = pre @ [t]"
      "\<And>cur. resolve cur pre = resolve cur (split_path a)" by blast
  from assms(2) have w: "mkdir_walk (fs st) (start_dir st a) (pre @ [t]) = (Inr (), fs st')"
    by (auto simp: os_makedirs_def pre(1) start_dir_join [OF assms(1)] split: if_splits prod.splits)
  from mkdir_walk_append [OF w] obtain h
    where "mkdir_walk h (resolve (start_dir st a) pre) [t] = (Inr (), fs st')" by blast
  from mkdir_walk_proper [OF assms(1) this] show ?thesis
    by (simp add: dir_of_def pre(2))
qed

lemma mkdir_walk_visits:
  "mkdir_walk f cur cs = (Inr (), g) \<Longrightarrow> p \<in> set (visits cur cs) \<Longrightarrow> g p = Some Dir"
proof (induction f cur cs arbitrary: g rule: mkdir_walk.induct)
  case (1 f cur)
  then show ?case by simp
next
  case (2 f cur c cs)
  show ?case
  proof (cases "is_dot c \<or> c = ''..''")
    case True
    with 2 show ?thesis by (auto split: if_splits)
  next
    case False
    show ?thesis
    proof (cases "f (cur @ [c])")
      case None
      with "2.prems"(1) False
      have w: "mkdir_walk (f(cur @ [c] \<mapsto> Dir)) (cur @ [c]) cs = (Inr (), g)" by simp
      show ?thesis
      proof (cases "p = cur @ [c]")
        case True
        with mkdir_walk_keeps [OF w, of p Dir] show ?thesis by simp
      next
        case neq: False
        with "2.prems"(2) False have "p \<in> set (visits (cur @ [c]) cs)" by simp
        with "2.IH"(3) False None w show ?thesis by blast
      qed
    next
      case (Some m)
      show ?thesis
      proof (cases m)
        case Dir
        with "2.prems"(1) False Some
        have w: "mkdir_walk f (cur @ [c]) cs = (Inr (), g)" by simp
        show ?thesis
        proof (cases "p = cur @ [c]")
          case True
          with mkdir_walk_keeps [OF w, of p Dir] Some Dir show ?thesis by simp
        next
          case neq: False
          with "2.prems"(2) False have "p \<in> set (visits (cur @ [c]) cs)" by simp
          with "2.IH"(4) False Some Dir w show ?thesis by blast
        qed
      next
        case (File b)
        with "2.prems"(1) False Some show ?thesis by simp
      qed
    qed
  qed
qed

lemma mkdir_walk_existing:
  "(\<And>p. p \<in> set (visits cur cs) \<Longrightarrow> f p = Some Dir) \<Longrightarrow> mkdir_walk f cur cs = (Inr (), f)"
proof (induction cur cs rule: visits.induct)
  case (1 cur)
  then show ?case by simp
next
  case (2 cur c cs)
  then show ?case by (auto split: if_splits)
qed

section \<open>Directories stay\<close>

lemma extends_refl [simp]: "extends st st"
  by (simp add: extends_def)

lemma extends_trans: "extends a b \<Longrightarrow> extends b c \<Longrightarrow> extends a c"
  by (simp add: extends_def)

lemma extends_emit [simp]: "extends st (emit e st)"
  by (simp add: extends_def)

lemma extends_time_sleep [simp]: "extends st (time_sleep st)"
  by (simp add: extends_def)

lemma extends_requests [simp]: "extends st (st\<lparr>requests := r\<rparr>)"
  by (simp add: extends_def)

lemma extends_os_makedirs: "os_makedirs name st = (r, st') \<Longrightarrow> extends st st'"
  by (auto simp: os_makedirs_def extends_def split: if_splits prod.splits dest: mkdir_walk_keeps)

lemma file_target_Inr:
  "file_target name st = Inr p \<longleftrightarrow>
     name \<noteq> [] \<and>
     (\<exists>real d. path_parts name = (real, False) \<and> real \<noteq> []
        \<and> walk_dirs (fs st) (start_dir st name) (butlast real) = Inr d
        \<and> \<not> is_dot (last real) \<and> last real \<noteq> ''..''
        \<and> fs st (d @ [last real]) \<noteq> Some Dir \<and> p = d @ [last real])"
  by (cases "path_parts name")
     (auto simp: file_target_def Let_def split: sum.splits if_splits)

lemma extends_open_wb: "open_wb name st = (r, st') \<Longrightarrow> extends st st'"
  by (auto simp: open_wb_def file_target_Inr extends_def split: sum.splits)

lemma extends_file_write: "extends st (file_write p chunk st)"
  by (auto simp: file_write_def extends_def split: option.splits node.splits)

lemma extends_write_chunks: "extends st (write_chunks p chunks st)"
proof (induction chunks arbitrary: st)
  case Nil
  then show ?case by simp
next
  case (Cons c chunks)
  from extends_trans [OF extends_file_write Cons] show ?case by simp
qed

lemma extends_download_file: "extends st (snd (download_file w url dest st))"
proof -
  let ?st0 = "st\<lparr>requests := requests st @ [url]\<rparr>"
  have e0: "extends st ?st0" by simp
  obtain r1 st1 where mk: "os_makedirs (os_path_dirname dest) ?st0 = (r1, st1)"
    by (cases "os_makedirs (os_path_dirname dest) ?st0")
  obtain r2 st2 where op: "open_wb dest st1 = (r2, st2)"
    by (cases "open_wb dest st1")
  note e1 = extends_trans [OF e0 extends_os_makedirs [OF mk]]
  note e2 = extends_trans [OF e1 extends_open_wb [OF op]]
  have e3: "extends st (write_chunks p chunks st2)" for p chunks
    by (rule extends_trans [OF e2 extends_write_chunks])
  have em: "extends st (emit e x)" if "extends st x" for e x
    using that by (simp add: extends_def)
  show ?thesis
    using e0 e1 e2 e3 mk op
    by (auto simp: download_file_def Let_def intro!: em split: sum.splits prod.splits option.splits)
qed

lemma extends_process_material:
  "extends st (snd (process_material w course_dir course material st))"
proof -
  have "extends st (time_sleep st')" if "download_file w url dest st = (ok, st')" for url dest ok st'
    using extends_trans [OF extends_download_file [of st w url dest] extends_time_sleep] that by simp
  then show ?thesis
    by (auto simp: process_material_def split: sum.splits bool.splits json.splits prod.splits)
qed

lemma extends_process_materials:
  "extends st (snd (process_materials w course_dir course materials st))"
proof (induction materials arbitrary: st)
  case Nil
  then show ?case by simp
next
  case (Cons m ms)
  obtain r st1 where pm: "process_material w course_dir course m st = (r, st1)"
    by (cases "process_material w course_dir course m st")
  with extends_process_material [of st w course_dir course m] have "extends st st1" by simp
  with Cons [of st1] pm show ?case
    by (cases r) (auto intro: extends_trans)
qed

lemma extends_process_course: "extends st (snd (process_course w base_dir course st))"
proof (cases "course_title course")
  case (Inl e)
  then show ?thesis by (simp add: process_course_def)
next
  case (Inr title)
  obtain r st1 where mk: "os_makedirs (os_path_join base_dir title) st = (r, st1)"
    by (cases "os_makedirs (os_path_join base_dir title) st")
  have e1: "extends st (emit (ProcessingCourse title) st1)"
    by (rule extends_trans [OF extends_os_makedirs [OF mk] extends_emit])
  have e2: "extends st (snd (process_materials w cd course ms (emit (ProcessingCourse title) st1)))" for cd ms
    by (rule extends_trans [OF e1 extends_process_materials])
  from Inr mk e1 e2 extends_os_makedirs [OF mk] show ?thesis
    by (auto simp: process_course_def Let_def split: sum.splits)
qed

lemma extends_process_courses: "extends st (snd (process_courses w base_dir courses st))"
proof (induction courses arbitrary: st)
  case Nil
  then show ?case by simp
next
  case (Cons c cs)
  obtain r st1 where pc: "process_course w base_dir c st = (r, st1)"
    by (cases "process_course w base_dir c st")
  with extends_process_course [of st w base_dir c] have "extends st st1" by simp
  with Cons [of st1] pc show ?case
    by (cases r) (auto intro: extends_trans)
qed

lemma dir_of_extends: "extends st st' \<Longrightarrow> dir_of st' name = dir_of st name"
  by (simp add: dir_of_def start_dir_def extends_def)

lemma os_makedirs_again:
  assumes "os_makedirs name st = (Inr (), st1)" and "extends st1 st2"
  shows "os_makedirs name st2 = (Inr (), st2)"
proof -
  from assms(1) have n: "name \<noteq> []"
    and w: "mkdir_walk (fs st) (start_dir st name) (split_path name) = (Inr (), fs st1)"
    and c: "cwd st1 = cwd st"
    by (auto simp: os_makedirs_def split: if_splits prod.splits)
  have "fs st2 p = Some Dir" if "p \<in> set (visits (start_dir st name) (split_path name))" for p
    using mkdir_walk_visits [OF w that] assms(2) by (simp add: extends_def)
  then have "mkdir_walk (fs st2) (start_dir st name) (split_path name) = (Inr (), fs st2)"
    by (rule mkdir_walk_existing)
  moreover have "start_dir st2 name = start_dir st name"
    using assms(2) c by (simp add: start_dir_def extends_def)
  ultimately show ?thesis using n by (simp add: os_makedirs_def)
qed

section \<open>A fetched file\<close>

lemma concat_chunks_of: "0 < n \<Longrightarrow> concat (chunks_of n bs) = bs"
proof (induction n bs rule: chunks_of.induct)
  case (1 n bs)
  then show ?case by (subst chunks_of.simps) auto
qed

lemma write_chunks_content:
  "fs st p = Some (File b) \<Longrightarrow>
   fs (write_chunks p chunks st) = (fs st)(p \<mapsto> File (b @ concat chunks))
   \<and> cwd (write_chunks p chunks st) = cwd st"
proof (induction chunks arbitrary: st b)
  case Nil
  then show ?case by auto
next
  case (Cons c chunks)
  let ?st1 = "file_write p c st"
  from Cons.prems have 1: "fs ?st1 = (fs st)(p \<mapsto> File (b @ c))" "cwd ?st1 = cwd st"
    by (simp_all add: file_write_def)
  then have "fs ?st1 p = Some (File (b @ c))" by simp
  from Cons.IH [OF this]
  have "fs (write_chunks p chunks ?st1) = (fs ?st1)(p \<mapsto> File ((b @ c) @ concat chunks))"
    and "cwd (write_chunks p chunks ?st1) = cwd ?st1" by blast+
  then show ?case unfolding 1 by simp
qed

lemma read_bytes_cong:
  assumes "fs a = fs b" and "cwd a = cwd b"
  shows "read_bytes name a = read_bytes name b"
  unfolding read_bytes_def start_dir_def assms by (rule refl)

lemma walk_dirs_mono:
  "walk_dirs f cur cs = Inr d \<Longrightarrow> (\<And>q. f q = Some Dir \<Longrightarrow> g q = Some Dir) \<Longrightarrow>
   walk_dirs g cur cs = Inr d"
proof (induction f cur cs rule: walk_dirs.induct)
  case (1 f cur)
  then show ?case by simp
next
  case (2 f cur c cs)
  then show ?case
    by (auto split: if_splits option.splits node.splits)
qed

text \<open>A file that was opened for writing and written is read back under the same name.\<close>

lemma read_bytes_written:
  assumes "file_target name st = Inr p"
    and "fs st' = (fs st)(p \<mapsto> File b)" and "cwd st' = cwd st"
  shows "read_bytes name st' = Inr b"
proof -
  from assms(1) obtain real d where
    n: "name \<noteq> []" and parts: "path_parts name = (real, False)" "real \<noteq> []"
    and w: "walk_dirs (fs st) (start_dir st name) (butlast real) = Inr d"
    and c: "\<not> is_dot (last real)" "last real \<noteq> ''..''"
    and p: "fs st p \<noteq> Some Dir" "p = d @ [last real]"
    by (auto simp: file_target_Inr)
  have "fs st q = Some Dir \<Longrightarrow> fs st' q = Some Dir" for q
    using assms(2) p(1) by auto
  with walk_dirs_mono [OF w, of "fs st'"]
  have "walk_dirs (fs st') (start_dir st name) (butlast real) = Inr d"
    by blast
  moreover have "start_dir st' name = start_dir st name"
    using assms(3) by (simp add: start_dir_def)
  moreover have "fs st' (d @ [last real]) = Some (File b)"
    using assms(2) p(2) by simp
  ultimately show ?thesis
    using n parts c by (simp add: read_bytes_def)
qed

lemma download_file_success:
  assumes "http_get w (length (requests st)) url = Inr response"
    and "raise_for_status response = Inr ()"
    and "breaks_after response = None"
    and "os_makedirs (os_path_dirname dest) (st\<lparr>requests := requests st @ [url]\<rparr>) = (Inr (), st1)"
    and "open_wb dest st1 = (Inr p, st2)"
  shows "\<exists>st'. download_file w url dest st = (True, st')
           \<and> read_bytes dest st' = Inr (content response)
           \<and> file_at st' p = Some (content response)
           \<and> out st' = out st @ [Downloaded dest]
           \<and> requests st' = requests st @ [url]"
proof -
  let ?chunks = "chunks_of 8192 (content response)"
  let ?st3 = "write_chunks p ?chunks st2"
  from assms(5) have t: "file_target dest st1 = Inr p"
    and st2: "fs st2 = (fs st1)(p \<mapsto> File [])" "cwd st2 = cwd st1"
    by (auto simp: open_wb_def split: sum.splits)
  from st2 have "fs st2 p = Some (File [])" by simp
  from write_chunks_content [OF this, of ?chunks]
  have st3: "fs ?st3 = (fs st1)(p \<mapsto> File (content response))" "cwd ?st3 = cwd st1"
    using st2 by (simp_all add: concat_chunks_of)
  have "read_bytes dest ?st3 = Inr (content response)"
    by (rule read_bytes_written [OF t st3])
  then have rd: "read_bytes dest (emit (Downloaded dest) ?st3) = Inr (content response)"
    using read_bytes_cong [of "emit (Downloaded dest) ?st3" ?st3 dest] by simp
  have d: "download_file w url dest st = (True, emit (Downloaded dest) ?st3)"
    using assms by (simp add: download_file_def iter_content_def)
  from download_file_report [OF d] d rd st3(1) show ?thesis
    by (simp add: file_at_def)
qed

text \<open>
  Claim C1, as amended. For a material that is downloaded, when the fetch succeeds (the
  request returns a response, \<^verbatim>\<open>raise_for_status\<close> accepts its status and the body arrives
  whole) and the file system lets the destination be written (creating its directory and
  opening it raise nothing), the loop body returns normally, and reading the file at
  \<^verbatim>\<open>base_dir/sanitize(title)/sanitize(fileName)\<close> afterwards gives the bytes of the body,
  whatever was at that path before; the success is printed. The title and the file name are
  the fields of the document or their defaults, and the directory the loop over the
  materials of the course is run with is \<^verbatim>\<open>base_dir/sanitize(title)\<close>.
\<close>

theorem fetched_file_has_body:
  assumes "dict_get course ''title'' (JStr ''Unknown'') = Inr (JStr title)"
    and "dict_get material ''fileName'' (JStr ''unknown_file'') = Inr (JStr name)"
    and "material_link material = Inr (JStr url)"
    and "skip_material (JStr url) course = Inr False"
    and "http_get w (length (requests st)) url = Inr response"
    and "raise_for_status response = Inr ()"
    and "breaks_after response = None"
    and "course_dir = os_path_join base_dir (sanitize_filename title)"
    and "dest = os_path_join course_dir (sanitize_filename name)"
    and "os_makedirs (os_path_dirname dest) (st\<lparr>requests := requests st @ [url]\<rparr>) = (Inr (), st1)"
    and "open_wb dest st1 = (Inr p, st2)"
  shows "course_title course = Inr (sanitize_filename title)
    \<and> (course_materials course = Inr materials \<and> os_makedirs course_dir st0 = (Inr (), s0) \<longrightarrow>
          process_course w base_dir course st0
            = process_materials w course_dir course materials
                (emit (ProcessingCourse (sanitize_filename title)) s0))
    \<and> (\<exists>st'. process_material w course_dir course material st = (Inr (), st')
           \<and> read_bytes dest st' = Inr (content response)
           \<and> file_at st' p = Some (content response)
           \<and> out st' = out st @ [Downloaded dest]
           \<and> requests st' = requests st @ [url])"
proof -
  from assms(1) have ct: "course_title course = Inr (sanitize_filename title)"
    by (simp add: course_title_def sanitize_value_def)
  from assms(2) have fn: "material_file_name material = Inr (sanitize_filename name)"
    by (simp add: material_file_name_def sanitize_value_def)
  from download_file_success [OF assms(5,6,7,10,11)] obtain st'
    where d: "download_file w url dest st = (True, st')"
      and r: "read_bytes dest st' = Inr (content response)" "file_at st' p = Some (content response)"
        "out st' = out st @ [Downloaded dest]" "requests st' = requests st @ [url]"
    by blast
  from process_material_download [OF fn assms(3,4), of w course_dir st] d assms(9)
  have "process_material w course_dir course material st = (Inr (), time_sleep st')" by simp
  moreover from r have "read_bytes dest (time_sleep st') = Inr (content response)"
    using read_bytes_cong [of "time_sleep st'" st' dest] by simp
  moreover have "process_course w base_dir course st0
            = process_materials w course_dir course materials
                (emit (ProcessingCourse (sanitize_filename title)) s0)"
    if "course_materials course = Inr materials" "os_makedirs course_dir st0 = (Inr (), s0)"
    using that ct assms(8) by (simp add: process_course_def)
  ultimately show ?thesis using ct r by simp
qed

theorem fetched_file_has_body_witness:
  "read_bytes ''downloads/Algo 101/notes_1.pdf''
     (snd (process_material example_world ''downloads/Algo 101'' example_course
        (JObj [(''fileName'', JStr ''notes:1.pdf''), (''link'', JStr ''http://x/notes1.pdf'')])
        example_state))
   = Inr [0x25, 0x50, 0x44, 0x46]"
proof -
  let ?m = "JObj [(''fileName'', JStr ''notes:1.pdf''), (''link'', JStr ''http://x/notes1.pdf'')]"
  let ?url = "''http://x/notes1.pdf''"
  let ?r = "\<lparr>status_code = 200, content = [0x25, 0x50, 0x44, 0x46], breaks_after = None\<rparr> :: response"
  let ?st0 = "example_state\<lparr>requests := requests example_state @ [?url]\<rparr>"
  let ?dest = "''downloads/Algo 101/notes_1.pdf''"
  let ?st1 = "snd (os_makedirs (os_path_dirname ?dest) ?st0)"
  let ?p = "[''downloads'', ''Algo 101'', ''notes_1.pdf'']"
  let ?st2 = "snd (open_wb ?dest ?st1)"
  have h1: "dict_get example_course ''title'' (JStr ''Unknown'') = Inr (JStr ''Algo 101'')"
    by (simp add: example_course_def dict_get_def)
  have h2: "dict_get ?m ''fileName'' (JStr ''unknown_file'') = Inr (JStr ''notes:1.pdf'')"
    by (simp add: dict_get_def)
  have h3: "material_link ?m = Inr (JStr ?url)"
    by (simp add: material_link_def dict_get_def)
  have h4: "skip_material (JStr ?url) example_course = Inr False"
    by (simp add: skip_material_def example_course_def dict_get_def str_endswith_def)
  have h5: "http_get example_world (length (requests example_state)) ?url = Inr ?r"
    by (simp add: example_world_def)
  have h6: "raise_for_status ?r = Inr ()"
    by (simp add: raise_for_status_def)
  have h7: "breaks_after ?r = None"
    by simp
  have h8: "''downloads/Algo 101'' = os_path_join ''downloads'' (sanitize_filename ''Algo 101'')"
    by (simp add: os_path_join_def sanitize_filename_map invalid_chars_def)
  have h9: "?dest = os_path_join ''downloads/Algo 101'' (sanitize_filename ''notes:1.pdf'')"
    by (simp add: os_path_join_def sanitize_filename_map invalid_chars_def)
  have h10: "os_makedirs (os_path_dirname ?dest) ?st0 = (Inr (), ?st1)"
    by (simp add: prod_eq_iff os_makedirs_def os_path_dirname_def start_dir_def is_dot_def example_state_def)
  have h11: "open_wb ?dest ?st1 = (Inr ?p, ?st2)"
    by (simp add: prod_eq_iff open_wb_def file_target_def path_parts_def os_makedirs_def
        os_path_dirname_def start_dir_def is_dot_def example_state_def)
  from fetched_file_has_body [OF h1 h2 h3 h4 h5 h6 h7 h8 h9 h10 h11, of "[]" example_state example_state]
  show ?thesis by auto
qed

text \<open>
  Claim C1 as stated fails when the fetch succeeds and the destination cannot be opened: for
  the file name \<^verbatim>\<open>.\<close> the destination is the course directory itself, the download ends with
  \<^verbatim>\<open>IsADirectoryError\<close>, which is printed, and there is no file at the destination.
\<close>

theorem fetched_file_counterexample:
  "http_get example_world 0 ''http://x/notes1.pdf''
     = Inr \<lparr>status_code = 200, content = [0x25, 0x50, 0x44, 0x46], breaks_after = None\<rparr>
   \<and> raise_for_status \<lparr>status_code = 200, content = [0x25, 0x50, 0x44, 0x46], breaks_after = None\<rparr> = Inr ()
   \<and> os_path_join (os_path_join ''downloads'' (sanitize_filename ''Algo 101'')) (sanitize_filename ''.'')
       = ''downloads/Algo 101/.''
   \<and> fst (process_material example_world ''downloads/Algo 101'' example_course
        (JObj [(''fileName'', JStr ''.''), (''link'', JStr ''http://x/notes1.pdf'')]) example_state) = Inr ()
   \<and> out (snd (process_material example_world ''downloads/Algo 101'' example_course
        (JObj [(''fileName'', JStr ''.''), (''link'', JStr ''http://x/notes1.pdf'')]) example_state))
       = [ErrorDownloading ''http://x/notes1.pdf'' IsADirectoryError]
   \<and> read_bytes ''downloads/Algo 101/.''
        (snd (process_material example_world ''downloads/Algo 101'' example_course
          (JObj [(''fileName'', JStr ''.''), (''link'', JStr ''http://x/notes1.pdf'')]) example_state))
       = Inl IsADirectoryError"
  by (simp add: run_defs example_course_def)

section \<open>Course directories\<close>

lemma course_title_proper:
  assumes "course_title course = Inr t"
  shows "CHR ''/'' \<notin> set t"
proof -
  from assms obtain s where "t = sanitize_filename s"
    by (auto simp: course_title_def sanitize_value_def split: sum.splits json.splits)
  moreover have "CHR ''/'' \<in> set invalid_chars" by (simp add: invalid_chars_def)
  ultimately show ?thesis using sanitize_filename_clean [of s] by auto
qed

lemma process_course_dir:
  assumes "process_course w base_dir course st = (Inr (), st')"
  shows "\<exists>t. course_title course = Inr t
           \<and> (t \<noteq> [] \<and> t \<noteq> ''.'' \<and> t \<noteq> ''..'' \<longrightarrow> fs st' (dir_of st base_dir @ [t]) = Some Dir)"
proof (cases "course_title course")
  case (Inl e)
  with assms show ?thesis by (simp add: process_course_def)
next
  case (Inr t)
  obtain r st1 where mk: "os_makedirs (os_path_join base_dir t) st = (r, st1)"
    by (cases "os_makedirs (os_path_join base_dir t) st")
  with assms Inr have r: "r = Inr ()" by (cases r) (auto simp: process_course_def)
  have "fs st' (dir_of st base_dir @ [t]) = Some Dir" if "t \<noteq> [] \<and> t \<noteq> ''.'' \<and> t \<noteq> ''..''"
  proof -
    from that course_title_proper [OF Inr] have p: "proper_name t" by (simp add: proper_name_def)
    from os_makedirs_join_dir [OF p mk [unfolded r]]
    have d: "fs st1 (dir_of st base_dir @ [t]) = Some Dir" .
    have "extends st1 st'"
    proof -
      have "extends st1 x" if "process_materials w cd course ms (emit (ProcessingCourse t) st1) = (y, x)"
        for cd ms x y
        using extends_trans [OF extends_emit [of st1 "ProcessingCourse t"]
            extends_process_materials [of "emit (ProcessingCourse t) st1" w cd course ms]]
          that by simp
      then show ?thesis using assms Inr mk r
        by (auto simp: process_course_def Let_def split: sum.splits)
    qed
    with d show ?thesis by (simp add: extends_def)
  qed
  with Inr show ?thesis by simp
qed

lemma process_courses_dirs:
  assumes "process_courses w base_dir courses st = (Inr (), st')"
    and "course \<in> set courses"
  shows "\<exists>t. course_title course = Inr t
           \<and> (t \<noteq> [] \<and> t \<noteq> ''.'' \<and> t \<noteq> ''..'' \<longrightarrow> fs st' (dir_of st base_dir @ [t]) = Some Dir)"
  using assms
proof (induction courses arbitrary: st)
  case Nil
  then show ?case by simp
next
  case (Cons c cs)
  obtain r st1 where pc: "process_course w base_dir c st = (r, st1)"
    by (cases "process_course w base_dir c st")
  with Cons.prems(1) have r: "r = Inr ()" and rest: "process_courses w base_dir cs st1 = (Inr (), st')"
    by (cases r; simp)+
  from extends_process_course [of st w base_dir c] pc have e1: "extends st st1" by simp
  from extends_process_courses [of st1 w base_dir cs] rest have e2: "extends st1 st'" by simp
  show ?case
  proof (cases "course = c")
    case True
    from process_course_dir [OF pc [unfolded r]] e2 True show ?thesis
      by (auto simp: extends_def)
  next
    case False
    with Cons.prems(2) have "course \<in> set cs" by simp
    from Cons.IH [OF rest this] dir_of_extends [OF e1] show ?thesis by simp
  qed
qed

lemma process_course_again:
  assumes "process_course w base_dir course st = (Inr (), st')"
    and "course_title course = Inr t" and "extends st' st''"
  shows "os_makedirs (os_path_join base_dir t) st'' = (Inr (), st'')"
proof -
  obtain r st1 where mk: "os_makedirs (os_path_join base_dir t) st = (r, st1)"
    by (cases "os_makedirs (os_path_join base_dir t) st")
  with assms have r: "r = Inr ()" by (cases r) (auto simp: process_course_def)
  have "extends st1 x" if "process_materials w cd course ms (emit (ProcessingCourse t) st1) = (y, x)"
    for cd ms x y
    using extends_trans [OF extends_emit [of st1 "ProcessingCourse t"]
        extends_process_materials [of "emit (ProcessingCourse t) st1" w cd course ms]]
      that by simp
  then have "extends st1 st'" using assms(1,2) mk r
    by (auto simp: process_course_def Let_def split: sum.splits)
  from os_makedirs_again [OF mk [unfolded r] extends_trans [OF this assms(3)]] show ?thesis .
qed

lemma process_courses_again:
  assumes "process_courses w base_dir courses st = (Inr (), st')"
    and "course \<in> set courses" and "course_title course = Inr t"
  shows "os_makedirs (os_path_join base_dir t) st' = (Inr (), st')"
  using assms(1,2)
proof (induction courses arbitrary: st)
  case Nil
  then show ?case by simp
next
  case (Cons c cs)
  obtain r st1 where pc: "process_course w base_dir c st = (r, st1)"
    by (cases "process_course w base_dir c st")
  with Cons.prems(1) have r: "r = Inr ()" and rest: "process_courses w base_dir cs st1 = (Inr (), st')"
    by (cases r; simp)+
  from extends_process_courses [of st1 w base_dir cs] rest have e2: "extends st1 st'" by simp
  show ?case
  proof (cases "course = c")
    case True
    from process_course_again [OF pc [unfolded r] _ e2] assms(3) True show ?thesis by simp
  next
    case False
    with Cons.prems(2) have "course \<in> set cs" by simp
    from Cons.IH [OF rest this] show ?thesis .
  qed
qed

lemma titles_of_set:
  "set (titles_of courses) = {t. \<exists>course\<in>set courses. course_title course = Inr t}"
  by (induction courses) (auto split: sum.splits)

lemma colliding_titles: "titles_of colliding_courses = [''a_b'', ''a_b'', ''c'']"
  by (simp add: colliding_courses_def course_title_def dict_get_def sanitize_value_def
      sanitize_filename_map invalid_chars_def)

text \<open>
  Claim C9, as amended. For a catalog on which \<^verbatim>\<open>main\<close> runs to its end, and whose sanitized
  titles are names of their own (none is empty, \<^verbatim>\<open>.\<close> or \<^verbatim>\<open>..\<close>): after the run every
  course, also one without materials, has its directory, and creating that directory again
  raises nothing and changes nothing; two sanitized titles have the same directory exactly
  when they are equal, so that there are as many course directories as distinct sanitized
  titles; and when none of them was a directory before the run, that is the number of course
  directories the run created.
\<close>

theorem course_directories:
  assumes "json_loads w json_data = Some data"
    and "catalog_courses data = Inr courses"
    and "main w json_data base_dir st = (Inr (), st')"
    and "\<forall>t\<in>set (titles_of courses). t \<noteq> [] \<and> t \<noteq> ''.'' \<and> t \<noteq> ''..''"
  shows "(\<forall>course\<in>set courses. \<exists>t. course_title course = Inr t
            \<and> fs st' (course_dir_path st base_dir t) = Some Dir
            \<and> os_makedirs (os_path_join base_dir t) st' = (Inr (), st'))
    \<and> (\<forall>t\<in>set (titles_of courses). \<forall>u\<in>set (titles_of courses).
          course_dir_path st base_dir t = course_dir_path st base_dir u \<longleftrightarrow> t = u)
    \<and> card (course_dir_path st base_dir ` set (titles_of courses)) = card (set (titles_of courses))
    \<and> ((\<forall>t\<in>set (titles_of courses). fs st (course_dir_path st base_dir t) \<noteq> Some Dir) \<longrightarrow>
          card (created_course_dirs st st' base_dir courses) = card (set (titles_of courses)))"
proof -
  obtain r1 st1 where mk: "os_makedirs base_dir st = (r1, st1)"
    by (cases "os_makedirs base_dir st")
  obtain r2 st2 where pc: "process_courses w base_dir courses st1 = (r2, st2)"
    by (cases "process_courses w base_dir courses st1")
  from assms(1,2,3) mk pc have r1: "r1 = Inr ()" and r2: "r2 = Inr ()" and st': "st' = emit Completed st2"
    by (cases r1; cases r2; simp add: main_def)+
  have e1: "extends st st1" by (rule extends_os_makedirs [OF mk])
  have proper: "proper_name t" if "t \<in> set (titles_of courses)" for t
    using that assms(4) course_title_proper by (auto simp: titles_of_set proper_name_def)
  have path: "course_dir_path st base_dir t = dir_of st base_dir @ [t]"
    if "t \<in> set (titles_of courses)" for t
    using proper [OF that] by (simp add: course_dir_path_def dir_of_join)
  have each: "\<exists>t. course_title course = Inr t
            \<and> fs st' (course_dir_path st base_dir t) = Some Dir
            \<and> os_makedirs (os_path_join base_dir t) st' = (Inr (), st')"
    if "course \<in> set courses" for course
  proof -
    from process_courses_dirs [OF pc [unfolded r2] that] obtain t
      where t: "course_title course = Inr t"
        and d: "t \<noteq> [] \<and> t \<noteq> ''.'' \<and> t \<noteq> ''..'' \<longrightarrow> fs st2 (dir_of st1 base_dir @ [t]) = Some Dir"
      by blast
    from t that have mem: "t \<in> set (titles_of courses)" by (auto simp: titles_of_set)
    with assms(4) d have "fs st2 (dir_of st1 base_dir @ [t]) = Some Dir" by blast
    with path [OF mem] dir_of_extends [OF e1] have "fs st' (course_dir_path st base_dir t) = Some Dir"
      by (simp add: st')
    moreover from process_courses_again [OF pc [unfolded r2] that t]
    have "os_makedirs (os_path_join base_dir t) st2 = (Inr (), st2)" .
    from os_makedirs_again [OF this, of st'] have "os_makedirs (os_path_join base_dir t) st' = (Inr (), st')"
      by (simp add: st')
    ultimately show ?thesis using t by blast
  qed
  have inj: "inj_on (course_dir_path st base_dir) (set (titles_of courses))"
    by (rule inj_onI) (simp add: path)
  have all_dirs: "fs st' p = Some Dir" if "p \<in> course_dir_path st base_dir ` set (titles_of courses)" for p
  proof -
    from that obtain t course where "p = course_dir_path st base_dir t" "course \<in> set courses"
      "course_title course = Inr t" by (auto simp: titles_of_set)
    with each [of course] show ?thesis by auto
  qed
  have c: "card (course_dir_path st base_dir ` set (titles_of courses)) = card (set (titles_of courses))"
    by (rule card_image [OF inj])
  have created: "card (created_course_dirs st st' base_dir courses) = card (set (titles_of courses))"
    if "\<forall>t\<in>set (titles_of courses). fs st (course_dir_path st base_dir t) \<noteq> Some Dir"
  proof -
    from that all_dirs
    have "created_course_dirs st st' base_dir courses = course_dir_path st base_dir ` set (titles_of courses)"
      by (auto simp: created_course_dirs_def)
    with c show ?thesis by simp
  qed
  have same: "course_dir_path st base_dir t = course_dir_path st base_dir u \<longleftrightarrow> t = u"
    if "t \<in> set (titles_of courses)" "u \<in> set (titles_of courses)" for t u
    using inj that by (auto dest: inj_onD)
  from each same c created show ?thesis by blast
qed

theorem course_directories_witness:
  "fs (snd (main example_world colliding_text ''downloads'' example_state)) [''downloads'', ''a_b''] = Some Dir
   \<and> fs (snd (main example_world colliding_text ''downloads'' example_state)) [''downloads'', ''c''] = Some Dir
   \<and> card (set (titles_of colliding_courses)) = 2
   \<and> card (created_course_dirs example_state
        (snd (main example_world colliding_text ''downloads'' example_state)) ''downloads'' colliding_courses) = 2"
proof -
  let ?st' = "snd (main example_world colliding_text ''downloads'' example_state)"
  have h1: "json_loads example_world colliding_text = Some colliding_document"
    by (simp add: example_world_def example_text_def colliding_text_def)
  have h2: "catalog_courses colliding_document = Inr colliding_courses"
    by (simp add: catalog_courses_def colliding_document_def colliding_courses_def dict_get_def py_iter_def)
  have h3: "main example_world colliding_text ''downloads'' example_state = (Inr (), ?st')"
    by (simp add: prod_eq_iff run_defs example_text_def colliding_text_def colliding_document_def)
  have h4: "\<forall>t\<in>set (titles_of colliding_courses). t \<noteq> [] \<and> t \<noteq> ''.'' \<and> t \<noteq> ''..''"
    by (simp add: colliding_titles)
  have p: "course_dir_path example_state ''downloads'' ''a_b'' = [''downloads'', ''a_b'']"
    "course_dir_path example_state ''downloads'' ''c'' = [''downloads'', ''c'']"
    by (simp_all add: course_dir_path_def dir_of_def resolve_def start_dir_def os_path_join_def
        is_dot_def example_state_def)
  have n: "\<forall>t\<in>set (titles_of colliding_courses).
      fs example_state (course_dir_path example_state ''downloads'' t) \<noteq> Some Dir"
    by (simp add: colliding_titles p) (simp add: example_state_def)
  have c: "card (set (titles_of colliding_courses)) = 2"
    by (simp add: colliding_titles)
  from course_directories [OF h1 h2 h3 h4] n c p
  show ?thesis by (auto simp: colliding_courses_def course_title_def dict_get_def sanitize_value_def
      sanitize_filename_map invalid_chars_def)
qed

text \<open>
  Claim C9 as stated fails for a title that is not a name of its own: the directory of a
  course titled \<^verbatim>\<open>..\<close> is the parent of the base directory, which exists before the run.
  The run ends normally, the catalog has one sanitized title, and no course directory was
  created.
\<close>

theorem course_directories_counterexample:
  "fst (main example_world dotdot_text ''downloads'' example_state) = Inr ()
   \<and> catalog_courses dotdot_document = Inr [JObj [(''title'', JStr ''..''), (''uuid'', JStr ''u1'')]]
   \<and> titles_of [JObj [(''title'', JStr ''..''), (''uuid'', JStr ''u1'')]] = [''..'']
   \<and> os_path_join ''downloads'' ''..'' = ''downloads/..''
   \<and> course_dir_path example_state ''downloads'' ''..'' = []
   \<and> fs example_state [] = Some Dir
   \<and> dom (fs (snd (main example_world dotdot_text ''downloads'' example_state)))
       = {[''downloads''], []}
   \<and> card (set (titles_of [JObj [(''title'', JStr ''..''), (''uuid'', JStr ''u1'')]])) = 1
   \<and> card (created_course_dirs example_state (snd (main example_world dotdot_text ''downloads'' example_state))
        ''downloads'' [JObj [(''title'', JStr ''..''), (''uuid'', JStr ''u1'')]]) = 0"
proof -
  have l: "json_loads example_world dotdot_text = Some dotdot_document"
    by (simp add: example_world_def example_text_def colliding_text_def dotdot_text_def)
  have t: "titles_of [JObj [(''title'', JStr ''..''), (''uuid'', JStr ''u1'')]] = [''..'']"
    by (simp add: course_title_def dict_get_def sanitize_value_def sanitize_filename_map invalid_chars_def)
  have p: "course_dir_path example_state ''downloads'' ''..'' = []"
    by (simp add: course_dir_path_def dir_of_def resolve_def start_dir_def os_path_join_def
        is_dot_def example_state_def)
  have c: "created_course_dirs example_state (snd (main example_world dotdot_text ''downloads'' example_state))
        ''downloads'' [JObj [(''title'', JStr ''..''), (''uuid'', JStr ''u1'')]] = {}"
    unfolding created_course_dirs_def t by (simp add: p) (simp add: example_state_def)
  show ?thesis
    unfolding c t p
    by (simp add: run_defs example_text_def colliding_text_def dotdot_text_def dotdot_document_def)
qed

end
